theory Spec2Isabelle
  imports Main "HOL-Library.Multiset"
begin

section \<open>Strings and the JavaScript built-ins the program calls\<close>

text \<open>
  A JavaScript string is modelled as a \<open>string\<close>, a list of 8-bit characters standing
  for its code units; the strings of the model are those whose code units lie below 256.
  On these, \<open>String.prototype.toLowerCase\<close> moves the letters A to Z and the letters
  from U+00C0 to U+00DE, the multiplication sign U+00D7 apart, 32 places up and leaves
  every other code unit alone. \<open>LOWER\<close> of the store depends on the locale of the
  database; it is a parameter of the store below.
\<close>

definition upper_letters :: string where
  "upper_letters =
     ''ABCDEFGHIJKLMNOPQRSTUVWXYZ'' @
     [CHR 0xC0, CHR 0xC1, CHR 0xC2, CHR 0xC3, CHR 0xC4, CHR 0xC5, CHR 0xC6, CHR 0xC7,
      CHR 0xC8, CHR 0xC9, CHR 0xCA, CHR 0xCB, CHR 0xCC, CHR 0xCD, CHR 0xCE, CHR 0xCF,
      CHR 0xD0, CHR 0xD1, CHR 0xD2, CHR 0xD3, CHR 0xD4, CHR 0xD5, CHR 0xD6,
      CHR 0xD8, CHR 0xD9, CHR 0xDA, CHR 0xDB, CHR 0xDC, CHR 0xDD, CHR 0xDE]"

definition lower_letters :: string where
  "lower_letters =
     ''abcdefghijklmnopqrstuvwxyz'' @
     [CHR 0xE0, CHR 0xE1, CHR 0xE2, CHR 0xE3, CHR 0xE4, CHR 0xE5, CHR 0xE6, CHR 0xE7,
      CHR 0xE8, CHR 0xE9, CHR 0xEA, CHR 0xEB, CHR 0xEC, CHR 0xED, CHR 0xEE, CHR 0xEF,
      CHR 0xF0, CHR 0xF1, CHR 0xF2, CHR 0xF3, CHR 0xF4, CHR 0xF5, CHR 0xF6,
      CHR 0xF8, CHR 0xF9, CHR 0xFA, CHR 0xFB, CHR 0xFC, CHR 0xFD, CHR 0xFE]"

definition lower_char :: "char \<Rightarrow> char" where
  "lower_char c = (case map_of (zip upper_letters lower_letters) c of None \<Rightarrow> c | Some l \<Rightarrow> l)"

definition toLowerCase :: "string \<Rightarrow> string" where
  "toLowerCase s = map lower_char s"

text \<open>\<open>s.startsWith(p)\<close>.\<close>

definition startsWith :: "string \<Rightarrow> string \<Rightarrow> bool" where
  "startsWith s p = (take (length p) s = p)"

text \<open>\<open>s.includes(q)\<close>: \<open>q\<close> occurs in \<open>s\<close> at some position.\<close>

fun includes_str :: "string \<Rightarrow> string \<Rightarrow> bool" where
  "includes_str [] q = (q = [])"
| "includes_str (c # s) q = (startsWith (c # s) q \<or> includes_str s q)"

text \<open>
  \<open>s.trim()\<close> removes white space and line terminators at both ends: among the code
  units below 256 these are tab, line feed, vertical tab, form feed, carriage return,
  space and the no-break space U+00A0.
\<close>

definition is_space :: "char \<Rightarrow> bool" where
  "is_space c = (let n = (of_char c :: nat) in (9 \<le> n \<and> n \<le> 13) \<or> n = 32 \<or> n = 160)"

definition trim :: "string \<Rightarrow> string" where
  "trim s = rev (dropWhile is_space (rev (dropWhile is_space s)))"

text \<open>\<open>s.split(c)\<close> for a one-character separator; the empty string splits into \<open>['']\<close>.\<close>

fun split :: "char \<Rightarrow> string \<Rightarrow> string list" where
  "split c [] = [[]]"
| "split c (x # xs) =
     (if x = c then [] # split c xs
      else (case split c xs of [] \<Rightarrow> [[x]] | w # ws \<Rightarrow> (x # w) # ws))"

text \<open>\<open>xs.join(sep)\<close>.\<close>

fun join :: "string \<Rightarrow> string list \<Rightarrow> string" where
  "join sep [] = []"
| "join sep [x] = x"
| "join sep (x # y # ys) = x @ sep @ join sep (y # ys)"

text \<open>The relational operator \<open><\<close> on two strings: code unit by code unit.\<close>

fun str_less :: "string \<Rightarrow> string \<Rightarrow> bool" where
  "str_less [] [] = False"
| "str_less [] (y # ys) = True"
| "str_less (x # xs) [] = False"
| "str_less (x # xs) (y # ys) =
     ((of_char x :: nat) < of_char y \<or> (x = y \<and> str_less xs ys))"

text \<open>\<open>n.toString()\<close> for an integer-valued number: decimal digits, with a sign.\<close>

definition digit_char :: "nat \<Rightarrow> char" where
  "digit_char d = ''0123456789'' ! d"

fun nat_toString :: "nat \<Rightarrow> string" where
  "nat_toString n =
     (if n < 10 then [digit_char n] else nat_toString (n div 10) @ [digit_char (n mod 10)])"

definition int_toString :: "int \<Rightarrow> string" where
  "int_toString i = (if i < 0 then CHR ''-'' # nat_toString (nat (- i)) else nat_toString (nat i))"

text \<open>
  \<open>xs.slice(start, end)\<close>: a negative index counts from the end, and both indices are
  cut to the array.
\<close>

definition slice :: "'a list \<Rightarrow> int \<Rightarrow> int \<Rightarrow> 'a list" where
  "slice xs start end' =
     (let n = int (length xs);
          k = (if start < 0 then max (n + start) 0 else min start n);
          final = (if end' < 0 then max (n + end') 0 else min end' n)
      in take (nat (final - k)) (drop (nat k) xs))"

text \<open>
  \<open>xs.sort(cmp)\<close>. The language requires the sort to be stable; it is modelled as the
  insertion sort that puts an element before the first one it does not follow. The
  comparator returns a negative number, zero or a positive number.
\<close>

fun insert_sorted :: "('a \<Rightarrow> 'a \<Rightarrow> int) \<Rightarrow> 'a \<Rightarrow> 'a list \<Rightarrow> 'a list" where
  "insert_sorted cmp x [] = [x]"
| "insert_sorted cmp x (y # ys) =
     (if cmp x y \<le> 0 then x # y # ys else y # insert_sorted cmp x ys)"

fun sort_with :: "('a \<Rightarrow> 'a \<Rightarrow> int) \<Rightarrow> 'a list \<Rightarrow> 'a list" where
  "sort_with cmp [] = []"
| "sort_with cmp (x # xs) = insert_sorted cmp x (sort_with cmp xs)"

text \<open>\<open>xs.findIndex(p)\<close>: \<open>None\<close> stands for \<open>-1\<close>.\<close>

fun findIndex :: "('a \<Rightarrow> bool) \<Rightarrow> 'a list \<Rightarrow> nat option" where
  "findIndex p [] = None"
| "findIndex p (x # xs) =
     (if p x then Some 0 else map_option Suc (findIndex p xs))"

text \<open>
  \<open>Math.ceil(n / r)\<close> for a length \<open>n\<close> and a page size \<open>r\<close>. Division by zero gives
  \<open>Infinity\<close> or \<open>NaN\<close>, which no comparison with a page number makes true: \<open>None\<close>.
\<close>

definition ceil_div :: "nat \<Rightarrow> nat \<Rightarrow> nat option" where
  "ceil_div n r = (if r = 0 then None else Some ((n + r - 1) div r))"

section \<open>The browser client (public/app.js)\<close>

subsection \<open>Data\<close>

text \<open>
  The data of the add and edit forms, \<open>{firstName, lastName, email, department, salary}\<close>,
  and an employee as the API sends it, which has an \<open>id\<close> as well.
\<close>

record employeeData =
  firstName :: string
  lastName :: string
  email :: string
  department :: string
  salary :: int

record employee = employeeData +
  emp_id :: string

text \<open>
  The sort keys are those of the sortable table headers: Name, Email, Department and
  Salary. A key that names no text property of an employee would raise a TypeError in the
  comparator; the type leaves it out.
\<close>

datatype sort_field = SortName | SortEmail | SortDepartment | SortSalary

datatype sort_direction = Asc | Desc

text \<open>A toast: title, description and variant.\<close>

type_synonym toast = "string \<times> string \<times> string"

text \<open>
  The module-level variables, the values of the three form controls the pipeline reads
  (\<open>searchInput.value\<close>, \<open>filterDepartment.value\<close>, and the page-size select through
  \<open>rowsPerPage\<close>), and what the page shows: the rows of the table body (the empty list is
  the "No employees found" row), the result count, the page label "Page p of t", the two
  button states and the toasts.
\<close>

record client =
  employees :: "employee list"
  filteredEmployees :: "employee list"
  currentPage :: int
  rowsPerPage :: nat
  sortField :: sort_field
  sortDirection :: sort_direction
  searchInput :: string
  filterDepartment :: string
  tableBody :: "employee list"
  totalResults :: nat
  pageInfo :: "int \<times> nat option"
  prevDisabled :: bool
  nextDisabled :: bool
  toasts :: "toast list"

definition showToast :: "string \<Rightarrow> string \<Rightarrow> string \<Rightarrow> client \<Rightarrow> client" where
  "showToast title description variant st = st\<lparr>toasts := toasts st @ [(title, description, variant)]\<rparr>"

subsection \<open>Sorting\<close>

datatype sort_value = StrValue string | NumValue int

definition fullName :: "'a employeeData_scheme \<Rightarrow> string" where
  "fullName e = firstName e @ '' '' @ lastName e"

definition sortValue :: "sort_field \<Rightarrow> employee \<Rightarrow> sort_value" where
  "sortValue f e =
     (case f of
        SortName \<Rightarrow> StrValue (toLowerCase (fullName e))
      | SortSalary \<Rightarrow> NumValue (salary e)
      | SortEmail \<Rightarrow> StrValue (toLowerCase (email e))
      | SortDepartment \<Rightarrow> StrValue (toLowerCase (department e)))"

text \<open>\<open>aValue < bValue\<close>; the two values of one comparison are of one kind.\<close>

fun value_less :: "sort_value \<Rightarrow> sort_value \<Rightarrow> bool" where
  "value_less (StrValue a) (StrValue b) = str_less a b"
| "value_less (NumValue a) (NumValue b) = (a < b)"
| "value_less _ _ = False"

definition compareEmployees :: "sort_field \<Rightarrow> sort_direction \<Rightarrow> employee \<Rightarrow> employee \<Rightarrow> int" where
  "compareEmployees f d a b =
     (let aValue = sortValue f a; bValue = sortValue f b
      in if value_less aValue bValue then (if d = Asc then - 1 else 1)
         else if value_less bValue aValue then (if d = Asc then 1 else - 1)
         else 0)"

definition sortEmployees :: "client \<Rightarrow> client" where
  "sortEmployees st =
     st\<lparr>filteredEmployees :=
          sort_with (compareEmployees (sortField st) (sortDirection st)) (filteredEmployees st)\<rparr>"

subsection \<open>Rendering and pagination\<close>

definition renderTable :: "client \<Rightarrow> client" where
  "renderTable st =
     (let start = (currentPage st - 1) * int (rowsPerPage st);
          end' = start + int (rowsPerPage st)
      in st\<lparr>tableBody := slice (filteredEmployees st) start end'\<rparr>)"

definition updatePagination :: "client \<Rightarrow> client" where
  "updatePagination st =
     (let totalPages = map_option (max 1) (ceil_div (length (filteredEmployees st)) (rowsPerPage st))
      in st\<lparr>totalResults := length (filteredEmployees st),
             pageInfo := (currentPage st, totalPages),
             prevDisabled := (currentPage st = 1),
             nextDisabled := (map_option int totalPages = Some (currentPage st))\<rparr>)"

definition changePage :: "int \<Rightarrow> client \<Rightarrow> client" where
  "changePage page st =
     (let totalPages = ceil_div (length (filteredEmployees st)) (rowsPerPage st)
      in if page < 1 \<or> (case totalPages of None \<Rightarrow> False | Some t \<Rightarrow> page > int t) then st
         else updatePagination (renderTable (st\<lparr>currentPage := page\<rparr>)))"

text \<open>The change event of the page-size select, whose value parses to \<open>r\<close>.\<close>

definition handleRowsPerPageChange :: "nat \<Rightarrow> client \<Rightarrow> client" where
  "handleRowsPerPageChange r st =
     updatePagination (renderTable (st\<lparr>rowsPerPage := r, currentPage := 1\<rparr>))"

subsection \<open>Search and filter\<close>

definition matchesSearch :: "string \<Rightarrow> employee \<Rightarrow> bool" where
  "matchesSearch searchQuery emp =
     (searchQuery = [] \<or>
      includes_str (toLowerCase (fullName emp)) searchQuery \<or>
      includes_str (toLowerCase (email emp)) searchQuery \<or>
      includes_str (toLowerCase (department emp)) searchQuery)"

definition matchesDept :: "string \<Rightarrow> employee \<Rightarrow> bool" where
  "matchesDept selectedDept emp = (selectedDept = ''all'' \<or> department emp = selectedDept)"

definition applyFilters :: "client \<Rightarrow> client" where
  "applyFilters st =
     (let searchQuery = toLowerCase (searchInput st);
          selectedDept = filterDepartment st
      in updatePagination (renderTable (sortEmployees
           (st\<lparr>filteredEmployees :=
                 filter (\<lambda>emp. matchesSearch searchQuery emp \<and> matchesDept selectedDept emp)
                   (employees st)\<rparr>))))"

text \<open>
  The input event of the search box, which now holds \<open>q\<close>, and the change event of the
  department select, which now holds \<open>d\<close>.
\<close>

definition handleSearch :: "string \<Rightarrow> client \<Rightarrow> client" where
  "handleSearch q st = applyFilters (st\<lparr>searchInput := q, currentPage := 1\<rparr>)"

definition handleFilter :: "string \<Rightarrow> client \<Rightarrow> client" where
  "handleFilter d st = applyFilters (st\<lparr>filterDepartment := d, currentPage := 1\<rparr>)"

definition handleSort :: "sort_field \<Rightarrow> client \<Rightarrow> client" where
  "handleSort field st =
     renderTable (sortEmployees
       (if sortField st = field
        then st\<lparr>sortDirection := (if sortDirection st = Asc then Desc else Asc)\<rparr>
        else st\<lparr>sortField := field, sortDirection := Asc\<rparr>))"

subsection \<open>CSV export\<close>

text \<open>
  The fourth header is "Salary" followed by a rupee sign in parentheses; the sign is
  written here as the three bytes of its UTF-8 encoding.
\<close>

definition rupee_sign :: string where
  "rupee_sign = [CHR 0xE2, CHR 0x82, CHR 0xB9]"

definition csv_headers :: "string list" where
  "csv_headers = [''Name'', ''Email'', ''Department'', ''Salary ('' @ rupee_sign @ '')'']"

definition csv_cells :: "employee \<Rightarrow> string list" where
  "csv_cells emp = [fullName emp, email emp, department emp, int_toString (salary emp)]"

definition quote_cell :: "string \<Rightarrow> string" where
  "quote_cell cell = [CHR 0x22] @ cell @ [CHR 0x22]"

definition csv_lines :: "employee list \<Rightarrow> string list" where
  "csv_lines emps =
     join '','' csv_headers # map (\<lambda>row. join '','' (map quote_cell row)) (map csv_cells emps)"

text \<open>The content of the downloaded file, and the state after the export.\<close>

definition csvContent :: "client \<Rightarrow> string" where
  "csvContent st = join [CHR 0x0A] (csv_lines (filteredEmployees st))"

definition exportToCSV :: "client \<Rightarrow> string \<times> client" where
  "exportToCSV st =
     (csvContent st, showToast ''CSV Exported'' ''Employee data has been exported to CSV.'' [] st)"

subsection \<open>Calls of the API\<close>

text \<open>
  A promise either rejects with an error, of which the program reads the message, or
  resolves. What \<open>fetch\<close> resolves to has the flag \<open>ok\<close> and a body, read as text
  (\<open>response.text()\<close>) or as an employee (\<open>response.json()\<close>); either read is a promise
  of its own. Each function below is given the settled promise of its request and runs
  from the call to the end in one step.
\<close>

datatype 'a promise = Rejected string | Resolved 'a

record fetch_response =
  ok :: bool
  text_body :: "string promise"
  json_body :: "employee promise"

text \<open>\<open>error.message || fallback\<close>.\<close>

definition message_or :: "string \<Rightarrow> string \<Rightarrow> string" where
  "message_or message fallback = (if message = [] then fallback else message)"

text \<open>
  In \<open>addEmployee\<close> and \<open>updateEmployee\<close> the error thrown for a response that is not ok
  is thrown inside a \<open>try\<close> whose \<open>catch\<close> throws the fixed message again, so the
  server's message never reaches the toast.
\<close>

definition addEmployee :: "'a employeeData_scheme \<Rightarrow> fetch_response promise \<Rightarrow> client \<Rightarrow> client" where
  "addEmployee employeeData fetched st =
     (case fetched of
        Rejected m \<Rightarrow> showToast ''Error'' (message_or m ''Failed to add employee'') ''destructive'' st
      | Resolved response \<Rightarrow>
          if \<not> ok response then
            (case text_body response of
               Rejected m \<Rightarrow> showToast ''Error'' (message_or m ''Failed to add employee'') ''destructive'' st
             | Resolved errText \<Rightarrow> showToast ''Error'' ''Failed to add employee'' ''destructive'' st)
          else
            (case json_body response of
               Rejected m \<Rightarrow> showToast ''Error'' (message_or m ''Failed to add employee'') ''destructive'' st
             | Resolved newEmployee \<Rightarrow>
                 showToast ''Employee Added'' (fullName employeeData @ '' has been added successfully.'') []
                   (applyFilters (st\<lparr>employees := employees st @ [newEmployee]\<rparr>))))"

definition updateEmployee ::
  "string \<Rightarrow> 'a employeeData_scheme \<Rightarrow> fetch_response promise \<Rightarrow> client \<Rightarrow> client" where
  "updateEmployee id' employeeData fetched st =
     (case fetched of
        Rejected m \<Rightarrow> showToast ''Error'' (message_or m ''Failed to update employee'') ''destructive'' st
      | Resolved response \<Rightarrow>
          if \<not> ok response then
            (case text_body response of
               Rejected m \<Rightarrow> showToast ''Error'' (message_or m ''Failed to update employee'') ''destructive'' st
             | Resolved errText \<Rightarrow> showToast ''Error'' ''Failed to update employee'' ''destructive'' st)
          else
            (case json_body response of
               Rejected m \<Rightarrow> showToast ''Error'' (message_or m ''Failed to update employee'') ''destructive'' st
             | Resolved updatedEmployee \<Rightarrow>
                 (case findIndex (\<lambda>emp. emp_id emp = id') (employees st) of
                    None \<Rightarrow> st
                  | Some index \<Rightarrow>
                      showToast ''Employee Updated''
                        (fullName employeeData @ '' has been updated successfully.'') []
                        (applyFilters (st\<lparr>employees := (employees st)[index := updatedEmployee]\<rparr>)))))"

text \<open>
  \<open>deleteEmployee\<close> asks the user first: \<open>confirmed\<close> is the answer of the dialog. The
  request is sent only for an employee of the cache and after a yes.
\<close>

definition deleteEmployee :: "string \<Rightarrow> bool \<Rightarrow> fetch_response promise \<Rightarrow> client \<Rightarrow> client" where
  "deleteEmployee id' confirmed fetched st =
     (case find (\<lambda>emp. emp_id emp = id') (employees st) of
        None \<Rightarrow> st
      | Some employee \<Rightarrow>
          if \<not> confirmed then st
          else
            (case fetched of
               Rejected m \<Rightarrow> showToast ''Error'' ''Failed to delete employee'' ''destructive'' st
             | Resolved response \<Rightarrow>
                 if \<not> ok response then showToast ''Error'' ''Failed to delete employee'' ''destructive'' st
                 else
                   showToast ''Employee Deleted'' (fullName employee @ '' has been removed.'') ''destructive''
                     (applyFilters (st\<lparr>employees := filter (\<lambda>emp. emp_id emp \<noteq> id') (employees st)\<rparr>))))"

section \<open>The server (Express routes over two PostgreSQL tables)\<close>

subsection \<open>Request values\<close>

text \<open>
  A field of a JSON request body: absent (\<open>undefined\<close>), \<open>null\<close>, a boolean, a number or
  a string. A number is kept as its integer value when it has one; every other number (a
  fraction, or the infinity that an oversized literal parses to) is \<open>JNonInt\<close>. Fields
  holding arrays or objects are not modelled.
\<close>

datatype jsnum = JInt int | JNonInt

datatype jsval = JUndefined | JNull | JBool bool | JNum jsnum | JStr string

text \<open>\<open>!v\<close>.\<close>

fun falsy :: "jsval \<Rightarrow> bool" where
  "falsy JUndefined = True"
| "falsy JNull = True"
| "falsy (JBool b) = (\<not> b)"
| "falsy (JNum n) = (n = JInt 0)"
| "falsy (JStr s) = (s = [])"

text \<open>\<open>typeof v\<close>.\<close>

fun typeof :: "jsval \<Rightarrow> string" where
  "typeof JUndefined = ''undefined''"
| "typeof JNull = ''object''"
| "typeof (JBool b) = ''boolean''"
| "typeof (JNum n) = ''number''"
| "typeof (JStr s) = ''string''"

record employee_body =
  body_firstName :: jsval
  body_lastName :: jsval
  body_email :: jsval
  body_department :: jsval
  body_salary :: jsval

record register_body =
  body_name :: jsval
  body_user_email :: jsval
  body_password :: jsval

subsection \<open>The store\<close>

text \<open>
  A row of \<open>employees\<close> is an employee with the owning user in the column \<open>userId\<close>,
  which may be \<open>NULL\<close>. A row of \<open>users\<close> has \<open>id\<close>, \<open>name\<close>, \<open>email\<close> and the hashed
  \<open>password\<close>; the routes return the first three.
\<close>

record employee_row = employee +
  userId :: "string option"

record user =
  user_id :: string
  name :: string
  user_email :: string

record user_row = user +
  password :: string

record database =
  employees_table :: "employee_row list"
  users_table :: "user_row list"

text \<open>
  What the program does not fix about the store and its driver: the function \<open>LOWER\<close>
  of the database's locale, the text the driver sends for a number or a boolean given as
  a parameter of a \<open>TEXT\<close> column, which key values make an index row too large for
  the index, and the collation that \<open>ORDER BY\<close> uses, a three-way comparison.
\<close>

record postgres =
  LOWER :: "string \<Rightarrow> string"
  driver_text :: "jsval \<Rightarrow> string"
  index_row_too_large :: "string list \<Rightarrow> bool"
  collation :: "string \<Rightarrow> string \<Rightarrow> int"

text \<open>
  The errors of a statement, by SQLSTATE: 23505, 23502, 22P02, 22003, 22021 and 54000.
  The routes tell 23505 from the others, which they answer alike. Failures of the
  connection are not modelled.
\<close>

datatype pg_error =
  UniqueViolation | NotNullViolation | InvalidTextRepresentation | NumericValueOutOfRange
| CharacterNotInRepertoire | ProgramLimitExceeded

text \<open>
  What the driver sends for a parameter of a \<open>TEXT\<close> column: a string as it is, \<open>NULL\<close>
  for \<open>null\<close> and \<open>undefined\<close>, and for a number or a boolean the driver's text.
\<close>

definition pg_text :: "postgres \<Rightarrow> jsval \<Rightarrow> string option" where
  "pg_text pg v =
     (case v of JStr s \<Rightarrow> Some s | JUndefined \<Rightarrow> None | JNull \<Rightarrow> None | _ \<Rightarrow> Some (driver_text pg v))"

text \<open>The store refuses a text that holds the code unit U+0000 (22021).\<close>

definition has_nul :: "string \<Rightarrow> bool" where
  "has_nul s = (CHR 0x00 \<in> set s)"

text \<open>
  A parameter of the \<open>INTEGER\<close> column: a number with an integer value of 32 bits is
  stored, any other number is refused. Only numbers reach the store.
\<close>

definition pg_integer :: "jsval \<Rightarrow> pg_error + int" where
  "pg_integer v =
     (case v of
        JNum (JInt i) \<Rightarrow>
          if - 2147483648 \<le> i \<and> i \<le> 2147483647 then Inr i else Inl NumericValueOutOfRange
      | _ \<Rightarrow> Inl InvalidTextRepresentation)"

text \<open>
  The parameters of the two statements that write an employee: the four texts and the
  salary of the body, and the texts \<open>keys\<close> (the id and the owner). A text with U+0000
  or a salary that is no 32-bit integer is refused when the parameters are bound, a
  \<open>NULL\<close> when the row is written. The result holds the values of the five columns.
\<close>

definition bind_employee :: "postgres \<Rightarrow> string list \<Rightarrow> employee_body \<Rightarrow> pg_error + employeeData" where
  "bind_employee pg keys b =
     (let texts = [pg_text pg (body_firstName b), pg_text pg (body_lastName b),
                   pg_text pg (body_email b), pg_text pg (body_department b)]
      in if (\<exists>s \<in> set keys. has_nul s) \<or>
            (\<exists>t \<in> set texts. case t of None \<Rightarrow> False | Some s \<Rightarrow> has_nul s)
         then Inl CharacterNotInRepertoire
         else
           (case pg_integer (body_salary b) of
              Inl err \<Rightarrow> Inl err
            | Inr n \<Rightarrow>
                (case texts of
                   [Some f, Some l, Some e, Some d] \<Rightarrow>
                     Inr \<lparr>firstName = f, lastName = l, email = e, department = d, salary = n\<rparr>
                 | _ \<Rightarrow> Inl NotNullViolation)))"

text \<open>
  The two unique constraints of \<open>employees\<close>: the primary key \<open>id\<close>, and the index
  \<open>employees_user_email_lower_unique\<close> on \<open>(userId, LOWER(email))\<close>, in which a \<open>NULL\<close>
  owner equals nothing.
\<close>

definition same_owner_email :: "postgres \<Rightarrow> employee_row \<Rightarrow> employee_row \<Rightarrow> bool" where
  "same_owner_email pg r new =
     (userId new \<noteq> None \<and> userId r = userId new \<and> LOWER pg (email r) = LOWER pg (email new))"

definition returning :: "employee_row \<Rightarrow> employee" where
  "returning r =
     \<lparr>firstName = firstName r, lastName = lastName r, email = email r,
      department = department r, salary = salary r, emp_id = emp_id r\<rparr>"

text \<open>
  \<open>INSERT INTO employees (...) VALUES ($1, ..., $7) RETURNING ...\<close>. The row enters the
  index of the primary key and then the index of owner and lower-case email; each
  refuses a row too large for it (54000) and a key it holds already (23505). A key that
  the index holds is not too large, so the order of the two refusals of one index does
  not show on a table that the store has built.
\<close>

definition insert_employee ::
  "postgres \<Rightarrow> string \<Rightarrow> employee_body \<Rightarrow> string \<Rightarrow> employee_row list \<Rightarrow>
   pg_error + (employee \<times> employee_row list)" where
  "insert_employee pg id' b uid rows =
     (case bind_employee pg [id', uid] b of
        Inl err \<Rightarrow> Inl err
      | Inr v \<Rightarrow>
          (let new = \<lparr>firstName = firstName v, lastName = lastName v, email = email v,
                      department = department v, salary = salary v,
                      emp_id = id', userId = Some uid\<rparr>
           in if index_row_too_large pg [id'] then Inl ProgramLimitExceeded
              else if \<exists>r \<in> set rows. emp_id r = id' then Inl UniqueViolation
              else if index_row_too_large pg [uid, LOWER pg (email v)] then Inl ProgramLimitExceeded
              else if \<exists>r \<in> set rows. same_owner_email pg r new then Inl UniqueViolation
              else Inr (returning new, rows @ [new])))"

text \<open>
  \<open>UPDATE employees SET ... WHERE id=$6 AND userid=$7 RETURNING ...\<close>: the rows of that
  id and owner get the new values, unless the new row is too large for the index of owner
  and lower-case email, or another row of the owner has the new email in lower case.
\<close>

definition update_employee ::
  "postgres \<Rightarrow> string \<Rightarrow> employee_body \<Rightarrow> string \<Rightarrow> employee_row list \<Rightarrow>
   pg_error + (employee list \<times> employee_row list)" where
  "update_employee pg id' b uid rows =
     (case bind_employee pg [id', uid] b of
        Inl err \<Rightarrow> Inl err
      | Inr v \<Rightarrow>
          (let hit = (\<lambda>r. emp_id r = id' \<and> userId r = Some uid);
               set_row = (\<lambda>r. r\<lparr>firstName := firstName v, lastName := lastName v, email := email v,
                                  department := department v, salary := salary v\<rparr>)
           in if (\<exists>r \<in> set rows. hit r) \<and> index_row_too_large pg [uid, LOWER pg (email v)]
              then Inl ProgramLimitExceeded
              else if (\<exists>r \<in> set rows. hit r) \<and>
                      (\<exists>r \<in> set rows. \<not> hit r \<and> userId r = Some uid \<and>
                                        LOWER pg (email r) = LOWER pg (email v))
              then Inl UniqueViolation
              else Inr (map (\<lambda>r. returning (set_row r)) (filter hit rows),
                        map (\<lambda>r. if hit r then set_row r else r) rows)))"

text \<open>\<open>DELETE FROM employees WHERE id=$1 AND userid=$2\<close>: the row count and the table.\<close>

definition delete_employee ::
  "string \<Rightarrow> string \<Rightarrow> employee_row list \<Rightarrow> pg_error + (nat \<times> employee_row list)" where
  "delete_employee id' uid rows =
     (let hit = (\<lambda>r. emp_id r = id' \<and> userId r = Some uid)
      in if has_nul id' \<or> has_nul uid then Inl CharacterNotInRepertoire
         else Inr (length (filter hit rows), filter (\<lambda>r. \<not> hit r) rows))"

text \<open>
  \<open>SELECT ... FROM employees WHERE userid=$1 ORDER BY lastname, firstname\<close>, in the
  order of the database's collation.
\<close>

definition order_by_name :: "postgres \<Rightarrow> employee_row \<Rightarrow> employee_row \<Rightarrow> int" where
  "order_by_name pg a b =
     (if collation pg (lastName a) (lastName b) \<noteq> 0 then collation pg (lastName a) (lastName b)
      else collation pg (firstName a) (firstName b))"

definition select_employees :: "postgres \<Rightarrow> string \<Rightarrow> employee_row list \<Rightarrow> pg_error + employee list" where
  "select_employees pg uid rows =
     (if has_nul uid then Inl CharacterNotInRepertoire
      else Inr (map returning (sort_with (order_by_name pg) (filter (\<lambda>r. userId r = Some uid) rows))))"

text \<open>
  \<open>SELECT id FROM users WHERE email = $1\<close> and \<open>SELECT id, name, email FROM users WHERE
  id=$1\<close>: the texts are compared as they are written.
\<close>

definition select_users_by_email :: "string \<Rightarrow> user_row list \<Rightarrow> pg_error + user_row list" where
  "select_users_by_email e rows =
     (if has_nul e then Inl CharacterNotInRepertoire else Inr (filter (\<lambda>u. user_email u = e) rows))"

definition select_users_by_id :: "string \<Rightarrow> user_row list \<Rightarrow> pg_error + user_row list" where
  "select_users_by_id i rows =
     (if has_nul i then Inl CharacterNotInRepertoire else Inr (filter (\<lambda>u. user_id u = i) rows))"

text \<open>
  \<open>INSERT INTO users (id, name, email, password) VALUES (...) RETURNING id, name, email\<close>:
  \<open>id\<close> is the primary key and \<open>email\<close> is \<open>UNIQUE\<close>, both compared as they are written.
\<close>

definition insert_user :: "postgres \<Rightarrow> user_row \<Rightarrow> user_row list \<Rightarrow> pg_error + (user \<times> user_row list)" where
  "insert_user pg new rows =
     (if has_nul (user_id new) \<or> has_nul (name new) \<or> has_nul (user_email new) \<or> has_nul (password new)
      then Inl CharacterNotInRepertoire
      else if index_row_too_large pg [user_id new] then Inl ProgramLimitExceeded
      else if \<exists>u \<in> set rows. user_id u = user_id new then Inl UniqueViolation
      else if index_row_too_large pg [user_email new] then Inl ProgramLimitExceeded
      else if \<exists>u \<in> set rows. user_email u = user_email new then Inl UniqueViolation
      else Inr (\<lparr>user_id = user_id new, name = name new, user_email = user_email new\<rparr>,
                rows @ [new]))"

subsection \<open>Responses\<close>

text \<open>
  A response is a status and a body: \<open>{error: s}\<close>, \<open>{message: s}\<close>, an employee, the list
  of employees, \<open>{user: u}\<close>, \<open>{message: s, user: u}\<close>, no body, or the error page the
  framework sends for an exception of a middleware.
\<close>

datatype payload =
  ErrorJson string
| MessageJson string
| EmployeeJson employee
| EmployeesJson "employee list"
| UserJson user
| MessageUserJson string user
| NoBody
| ErrorPage

type_synonym response = "nat \<times> payload"

subsection \<open>The session check\<close>

text \<open>
  \<open>getUserIdFromCookie\<close> reads the \<open>Cookie\<close> header of the request (\<open>None\<close> when the
  request has none). \<open>decodeURIComponent\<close> is the parameter \<open>dec\<close>; it raises a URIError
  on a malformed escape, which is \<open>None\<close>.
\<close>

datatype cookie_uid = URIError | Null | Uid string

definition getUserIdFromCookie :: "(string \<Rightarrow> string option) \<Rightarrow> string option \<Rightarrow> cookie_uid" where
  "getUserIdFromCookie dec cookie =
     (let cookieHeader = (case cookie of None \<Rightarrow> [] | Some h \<Rightarrow> h);
          parts = map trim (split CHR '';'' cookieHeader)
      in case find (\<lambda>part. startsWith part ''uid='') parts of
           None \<Rightarrow> Null
         | Some part \<Rightarrow> (case dec (drop 4 part) of None \<Rightarrow> URIError | Some u \<Rightarrow> Uid u))"

text \<open>
  \<open>authRequired\<close> runs before every employee route; \<open>next'\<close> is the route, given
  \<open>req.userId\<close>. An exception of the middleware is answered by the framework with 500.
\<close>

definition authRequired ::
  "(string \<Rightarrow> string option) \<Rightarrow> string option \<Rightarrow> database \<Rightarrow>
   (string \<Rightarrow> response \<times> database) \<Rightarrow> response \<times> database" where
  "authRequired dec cookie db next' =
     (case getUserIdFromCookie dec cookie of
        URIError \<Rightarrow> ((500, ErrorPage), db)
      | Null \<Rightarrow> ((401, ErrorJson ''Unauthorized''), db)
      | Uid userId' \<Rightarrow>
          if userId' = [] then ((401, ErrorJson ''Unauthorized''), db) else next' userId')"

text \<open>
  \<open>GET /api/auth/me\<close>. The handler is asynchronous, so an exception of
  \<open>getUserIdFromCookie\<close> is caught by nobody and no response is sent: \<open>None\<close>.
\<close>

definition auth_me :: "(string \<Rightarrow> string option) \<Rightarrow> string option \<Rightarrow> database \<Rightarrow> response option" where
  "auth_me dec cookie db =
     (case getUserIdFromCookie dec cookie of
        URIError \<Rightarrow> None
      | Null \<Rightarrow> Some (401, ErrorJson ''Unauthorized'')
      | Uid userId' \<Rightarrow>
          if userId' = [] then Some (401, ErrorJson ''Unauthorized'')
          else (case select_users_by_id userId' (users_table db) of
                  Inl err \<Rightarrow> Some (500, ErrorJson ''Failed to fetch user'')
                | Inr [] \<Rightarrow> Some (401, ErrorJson ''Unauthorized'')
                | Inr (u # rest) \<Rightarrow>
                    Some (200, UserJson \<lparr>user_id = user_id u, name = name u, user_email = user_email u\<rparr>)))"

subsection \<open>Registration\<close>

text \<open>
  \<open>password.length < 6\<close>: a number or a boolean has no length, and \<open>undefined < 6\<close> is
  false. \<open>bcrypt.hash\<close> is the parameter \<open>hash\<close>; it refuses what is not a string.
  \<open>id'\<close> is what \<open>generateId()\<close> returns. Every exception after the two checks of the
  body is caught and answered with 500.
\<close>

definition too_short :: "jsval \<Rightarrow> bool" where
  "too_short v = (case v of JStr s \<Rightarrow> length s < 6 | _ \<Rightarrow> False)"

definition register ::
  "(string \<Rightarrow> string) \<Rightarrow> postgres \<Rightarrow> string \<Rightarrow> register_body \<Rightarrow> database \<Rightarrow>
   response \<times> database" where
  "register hash pg id' b db =
     (if falsy (body_name b) \<or> falsy (body_user_email b) \<or> falsy (body_password b)
      then ((400, ErrorJson ''All fields are required''), db)
      else if too_short (body_password b)
      then ((400, ErrorJson ''Password must be at least 6 characters''), db)
      else
        (case (body_password b, pg_text pg (body_name b), pg_text pg (body_user_email b)) of
           (pw, Some n, Some e) \<Rightarrow>
             (case select_users_by_email e (users_table db) of
                Inl err \<Rightarrow> ((500, ErrorJson ''Failed to register user''), db)
              | Inr (u # rest) \<Rightarrow> ((409, ErrorJson ''User with this email already exists''), db)
              | Inr [] \<Rightarrow>
                  (case pw of
                     JStr p \<Rightarrow>
                       (case insert_user pg \<lparr>user_id = id', name = n, user_email = e, password = hash p\<rparr>
                               (users_table db) of
                          Inl err \<Rightarrow> ((500, ErrorJson ''Failed to register user''), db)
                        | Inr (u, rows) \<Rightarrow>
                            ((201, MessageUserJson ''Registration successful'' u),
                             db\<lparr>users_table := rows\<rparr>))
                   | _ \<Rightarrow> ((500, ErrorJson ''Failed to register user''), db)))
         | _ \<Rightarrow> ((500, ErrorJson ''Failed to register user''), db)))"

subsection \<open>The employee routes\<close>

text \<open>The handlers, given \<open>req.userId\<close>; \<open>id'\<close> is \<open>generateId()\<close> or \<open>req.params.id\<close>.\<close>

definition invalid_employee :: "employee_body \<Rightarrow> bool" where
  "invalid_employee b =
     (falsy (body_firstName b) \<or> falsy (body_lastName b) \<or> falsy (body_email b) \<or>
      falsy (body_department b) \<or> typeof (body_salary b) \<noteq> ''number'')"

definition get_employees :: "postgres \<Rightarrow> database \<Rightarrow> string \<Rightarrow> response \<times> database" where
  "get_employees pg db uid =
     (case select_employees pg uid (employees_table db) of
        Inr rows \<Rightarrow> ((200, EmployeesJson rows), db)
      | Inl err \<Rightarrow> ((500, MessageJson ''Failed to fetch employees''), db))"

definition post_employee ::
  "postgres \<Rightarrow> string \<Rightarrow> employee_body \<Rightarrow> database \<Rightarrow> string \<Rightarrow> response \<times> database" where
  "post_employee pg id' b db uid =
     (if invalid_employee b then ((400, MessageJson ''Invalid employee data''), db)
      else
        (case insert_employee pg id' b uid (employees_table db) of
           Inr (row, rows) \<Rightarrow> ((201, EmployeeJson row), db\<lparr>employees_table := rows\<rparr>)
         | Inl UniqueViolation \<Rightarrow>
             ((409, MessageJson ''An employee with this email already exists.''), db)
         | Inl err \<Rightarrow> ((500, MessageJson ''Failed to add employee''), db)))"

definition put_employee ::
  "postgres \<Rightarrow> string \<Rightarrow> employee_body \<Rightarrow> database \<Rightarrow> string \<Rightarrow> response \<times> database" where
  "put_employee pg id' b db uid =
     (if invalid_employee b then ((400, MessageJson ''Invalid employee data''), db)
      else
        (case update_employee pg id' b uid (employees_table db) of
           Inr ([], rows) \<Rightarrow> ((404, MessageJson ''Employee not found''), db)
         | Inr (row # others, rows) \<Rightarrow> ((200, EmployeeJson row), db\<lparr>employees_table := rows\<rparr>)
         | Inl UniqueViolation \<Rightarrow>
             ((409, MessageJson ''An employee with this email already exists.''), db)
         | Inl err \<Rightarrow> ((500, MessageJson ''Failed to update employee''), db)))"

definition delete_employee_route :: "string \<Rightarrow> database \<Rightarrow> string \<Rightarrow> response \<times> database" where
  "delete_employee_route id' db uid =
     (case delete_employee id' uid (employees_table db) of
        Inl err \<Rightarrow> ((500, MessageJson ''Failed to delete employee''), db)
      | Inr (rowCount, rows) \<Rightarrow>
          if rowCount = 0 then ((404, MessageJson ''Employee not found''), db)
          else ((204, NoBody), db\<lparr>employees_table := rows\<rparr>))"

text \<open>The routes as they are mounted, behind \<open>authRequired\<close>.\<close>

definition GET_api_employees ::
  "(string \<Rightarrow> string option) \<Rightarrow> postgres \<Rightarrow> string option \<Rightarrow> database \<Rightarrow> response \<times> database" where
  "GET_api_employees dec pg cookie db = authRequired dec cookie db (get_employees pg db)"

definition POST_api_employees ::
  "(string \<Rightarrow> string option) \<Rightarrow> postgres \<Rightarrow> string \<Rightarrow> string option \<Rightarrow> employee_body \<Rightarrow>
   database \<Rightarrow> response \<times> database" where
  "POST_api_employees dec pg id' cookie b db = authRequired dec cookie db (post_employee pg id' b db)"

definition PUT_api_employees ::
  "(string \<Rightarrow> string option) \<Rightarrow> postgres \<Rightarrow> string \<Rightarrow> string option \<Rightarrow> employee_body \<Rightarrow>
   database \<Rightarrow> response \<times> database" where
  "PUT_api_employees dec pg id' cookie b db = authRequired dec cookie db (put_employee pg id' b db)"

definition DELETE_api_employees ::
  "(string \<Rightarrow> string option) \<Rightarrow> string \<Rightarrow> string option \<Rightarrow> database \<Rightarrow> response \<times> database" where
  "DELETE_api_employees dec id' cookie db = authRequired dec cookie db (delete_employee_route id' db)"

text \<open>
  The invariant of the table \<open>employees\<close>: the ids are distinct, and so are the pairs of
  owner and lower-case email of the rows that have an owner.
\<close>

definition owner_email :: "postgres \<Rightarrow> employee_row \<Rightarrow> string option \<times> string" where
  "owner_email pg r = (userId r, LOWER pg (email r))"

definition employees_unique :: "postgres \<Rightarrow> employee_row list \<Rightarrow> bool" where
  "employees_unique pg rows =
     (distinct (map emp_id rows) \<and>
      distinct (map (owner_email pg) (filter (\<lambda>r. userId r \<noteq> None) rows)))"

section \<open>Notions of the specification\<close>

text \<open>
  The filter predicate in the words of the specification: a record matches if the search
  text is empty, or the lower-cased search text is a substring of the lower-cased full
  name, email or department; and the department filter is "all" or equals the record's
  department. A substring is a contiguous part.
\<close>

definition is_substring :: "string \<Rightarrow> string \<Rightarrow> bool" where
  "is_substring q s = (\<exists>ps ss. s = ps @ q @ ss)"

definition in_filtered_view :: "string \<Rightarrow> string \<Rightarrow> employee \<Rightarrow> bool" where
  "in_filtered_view searchText dept e =
     ((searchText = [] \<or>
       is_substring (toLowerCase searchText) (toLowerCase (firstName e @ '' '' @ lastName e)) \<or>
       is_substring (toLowerCase searchText) (toLowerCase (email e)) \<or>
       is_substring (toLowerCase searchText) (toLowerCase (department e)))
      \<and> (dept = ''all'' \<or> department e = dept))"

text \<open>
  The pagination invariant of the view: the current page lies between 1 and the number
  of pages, which is at least 1.
\<close>

definition page_in_range :: "client \<Rightarrow> bool" where
  "page_in_range st =
     (case ceil_div (length (filteredEmployees st)) (rowsPerPage st) of
        None \<Rightarrow> False
      | Some t \<Rightarrow> 1 \<le> currentPage st \<and> currentPage st \<le> int (max 1 t))"

text \<open>The filtered list is the one the cache and the two controls give, up to its order.\<close>

definition view_synced :: "client \<Rightarrow> bool" where
  "view_synced st =
     (mset (filteredEmployees st) =
      mset (filter (\<lambda>emp. matchesSearch (toLowerCase (searchInput st)) emp \<and>
                          matchesDept (filterDepartment st) emp) (employees st)))"

text \<open>A confirmed success: the request resolved and the response is ok.\<close>

definition succeeded :: "fetch_response promise \<Rightarrow> bool" where
  "succeeded fetched = (case fetched of Rejected m \<Rightarrow> False | Resolved response \<Rightarrow> ok response)"

text \<open>The two salary orders of the filtered list.\<close>

definition sorted_by_salary :: "sort_direction \<Rightarrow> client \<Rightarrow> employee list" where
  "sorted_by_salary d st =
     filteredEmployees (sortEmployees (st\<lparr>sortField := SortSalary, sortDirection := d\<rparr>))"

text \<open>No text field of the employee holds a line feed.\<close>

definition no_line_break :: "employee \<Rightarrow> bool" where
  "no_line_break e =
     (CHR 0x0A \<notin> set (firstName e) \<union> set (lastName e) \<union> set (email e) \<union> set (department e))"

text \<open>
  A create or update that passes the validation of the route and whose values the store
  takes: no text with U+0000, a salary of 32 bits, and index rows that fit.
\<close>

definition storable :: "postgres \<Rightarrow> string \<Rightarrow> string \<Rightarrow> employee_body \<Rightarrow> bool" where
  "storable pg id' uid b =
     (\<not> invalid_employee b \<and>
      (case bind_employee pg [id', uid] b of
         Inl err \<Rightarrow> False
       | Inr v \<Rightarrow> \<not> index_row_too_large pg [id'] \<and>
                  \<not> index_row_too_large pg [uid, LOWER pg (email v)]))"

text \<open>A registration whose values the store takes.\<close>

definition registrable :: "(string \<Rightarrow> string) \<Rightarrow> postgres \<Rightarrow> string \<Rightarrow> string \<Rightarrow> string \<Rightarrow> string \<Rightarrow> bool" where
  "registrable hash pg id' n e p =
     (n \<noteq> [] \<and> e \<noteq> [] \<and> 6 \<le> length p \<and>
      \<not> has_nul id' \<and> \<not> has_nul n \<and> \<not> has_nul e \<and> \<not> has_nul (hash p) \<and>
      \<not> index_row_too_large pg [id'] \<and> \<not> index_row_too_large pg [e])"

definition nonempty_fields :: "employee_row \<Rightarrow> bool" where
  "nonempty_fields r =
     (firstName r \<noteq> [] \<and> lastName r \<noteq> [] \<and> email r \<noteq> [] \<and> department r \<noteq> [])"

section \<open>Sample data\<close>

text \<open>The client as the module starts it, with an empty search box and no department chosen.\<close>

definition initial_client :: client where
  "initial_client =
     \<lparr>employees = [], filteredEmployees = [], currentPage = 1, rowsPerPage = 10,
      sortField = SortName, sortDirection = Asc, searchInput = [], filterDepartment = ''all'',
      tableBody = [], totalResults = 0, pageInfo = (1, Some 1), prevDisabled = True,
      nextDisabled = True, toasts = []\<rparr>"

definition ann :: employee where
  "ann = \<lparr>firstName = ''Ann'', lastName = ''Lee'', email = ''ann@x.com'',
          department = ''Engineering'', salary = 100, emp_id = ''a1''\<rparr>"

definition bob :: employee where
  "bob = \<lparr>firstName = ''Bob'', lastName = ''Ray'', email = ''bob@x.com'',
          department = ''Sales'', salary = 100, emp_id = ''b2''\<rparr>"

definition cy :: employee where
  "cy = \<lparr>firstName = ''Cy'', lastName = ''Fox'', email = ''cy@x.com'',
         department = ''Engineering'', salary = 300, emp_id = ''c3''\<rparr>"

text \<open>Six employees, shown five to a page and sorted by salary, with the second page open.\<close>

definition worker :: "string \<Rightarrow> int \<Rightarrow> employee" where
  "worker i s = \<lparr>firstName = ''W'', lastName = i, email = i @ ''@x.com'',
                 department = ''Sales'', salary = s, emp_id = i\<rparr>"

definition six_workers :: "employee list" where
  "six_workers = [worker ''1'' 10, worker ''2'' 20, worker ''3'' 30, worker ''4'' 40,
                  worker ''5'' 50, worker ''6'' 60]"

definition second_page :: client where
  "second_page =
     initial_client\<lparr>employees := six_workers, filteredEmployees := six_workers, currentPage := 2,
       rowsPerPage := 5, sortField := SortSalary, tableBody := [worker ''6'' 60], totalResults := 6,
       pageInfo := (2, Some 2), prevDisabled := False, nextDisabled := True\<rparr>"

text \<open>Twenty-five filtered records, ten to a page, with the first page open.\<close>

definition twenty_five :: client where
  "twenty_five =
     initial_client\<lparr>employees := replicate 25 ann, filteredEmployees := replicate 25 ann,
       tableBody := replicate 10 ann, totalResults := 25, pageInfo := (1, Some 3),
       nextDisabled := False\<rparr>"

text \<open>Responses of the API as the client sees them: 204, 201 with an employee, and 409.\<close>

definition deleted_response :: fetch_response where
  "deleted_response = \<lparr>ok = True, text_body = Resolved [], json_body = Rejected ''Unexpected end of JSON input''\<rparr>"

definition created_response :: "employee \<Rightarrow> fetch_response" where
  "created_response e = \<lparr>ok = True, text_body = Resolved [], json_body = Resolved e\<rparr>"

definition conflict_response :: fetch_response where
  "conflict_response =
     \<lparr>ok = False, text_body = Resolved ''An employee with this email already exists.'',
      json_body = Rejected []\<rparr>"

text \<open>
  A store whose \<open>LOWER\<close> is that of the browser, whose driver sends a question mark for
  what is not a string, for which no index row is too large, and that orders nothing.
\<close>

definition sample_pg :: postgres where
  "sample_pg = \<lparr>LOWER = toLowerCase, driver_text = (\<lambda>v. ''?''), index_row_too_large = (\<lambda>keys. False),
                collation = (\<lambda>a b. 0)\<rparr>"

text \<open>An empty store, two request bodies whose emails differ by case only, and a row.\<close>

definition empty_db :: database where
  "empty_db = \<lparr>employees_table = [], users_table = []\<rparr>"

definition jane :: employee_body where
  "jane = \<lparr>body_firstName = JStr ''Jane'', body_lastName = JStr ''Doe'',
           body_email = JStr ''jane@x.com'', body_department = JStr ''CSE'',
           body_salary = JNum (JInt 80000)\<rparr>"

definition jane_upper :: employee_body where
  "jane_upper = jane\<lparr>body_email := JStr ''JANE@X.com''\<rparr>"

definition jane_row :: "string \<Rightarrow> string \<Rightarrow> string \<Rightarrow> employee_row" where
  "jane_row i e uid = \<lparr>firstName = ''Jane'', lastName = ''Doe'', email = e, department = ''CSE'',
                       salary = 80000, emp_id = i, userId = Some uid\<rparr>"

section \<open>Auxiliary lemmas\<close>

lemma startsWith_iff: "startsWith s p = (\<exists>ss. s = p @ ss)"
  unfolding startsWith_def
  by (metis append_eq_conv_conj append_take_drop_id)

lemma includes_str_iff: "includes_str s q = (\<exists>ps ss. s = ps @ q @ ss)"
proof (induction s)
  case Nil
  then show ?case by auto
next
  case (Cons c s)
  show ?case
  proof
    assume "includes_str (c # s) q"
    then consider "startsWith (c # s) q" | "includes_str s q" by auto
    then show "\<exists>ps ss. c # s = ps @ q @ ss"
    proof cases
      case 1
      then obtain ss where "c # s = q @ ss" by (auto simp: startsWith_iff)
      then have "c # s = [] @ q @ ss" by simp
      then show ?thesis by blast
    next
      case 2
      then obtain ps ss where "s = ps @ q @ ss" using Cons.IH by auto
      then have "c # s = (c # ps) @ q @ ss" by simp
      then show ?thesis by blast
    qed
  next
    assume "\<exists>ps ss. c # s = ps @ q @ ss"
    then obtain ps ss where e: "c # s = ps @ q @ ss" by blast
    show "includes_str (c # s) q"
    proof (cases ps)
      case Nil
      then have "startsWith (c # s) q" using e by (auto simp: startsWith_iff)
      then show ?thesis by simp
    next
      case (Cons p ps')
      then have "s = ps' @ q @ ss" using e by simp
      then have "includes_str s q" using Cons.IH by blast
      then show ?thesis by simp
    qed
  qed
qed

lemma mset_insert_sorted: "mset (insert_sorted cmp x xs) = add_mset x (mset xs)"
  by (induction xs) auto

lemma mset_sort_with: "mset (sort_with cmp xs) = mset xs"
  by (induction xs) (auto simp: mset_insert_sorted)

lemma set_sort_with: "set (sort_with cmp xs) = set xs"
  by (metis mset_sort_with set_mset_mset)

lemma length_sort_with: "length (sort_with cmp xs) = length xs"
  by (metis mset_sort_with size_mset)

lemma cmp_salary_asc: "(compareEmployees SortSalary Asc a b \<le> 0) = (salary a \<le> salary b)"
  by (auto simp: compareEmployees_def sortValue_def Let_def)

lemma cmp_salary_desc: "(compareEmployees SortSalary Desc a b \<le> 0) = (- salary a \<le> - salary b)"
  by (auto simp: compareEmployees_def sortValue_def Let_def)

lemma insert_sorted_asc: "insert_sorted (compareEmployees SortSalary Asc) x xs = insort_key salary x xs"
  by (induction xs) (auto simp: cmp_salary_asc)

lemma insert_sorted_desc:
  "insert_sorted (compareEmployees SortSalary Desc) x xs = insort_key (\<lambda>e. - salary e) x xs"
  by (induction xs) (auto simp: cmp_salary_desc)

lemma sort_with_asc: "sort_with (compareEmployees SortSalary Asc) xs = sort_key salary xs"
  by (induction xs) (auto simp: insert_sorted_asc)

lemma sort_with_desc: "sort_with (compareEmployees SortSalary Desc) xs = sort_key (\<lambda>e. - salary e) xs"
  by (induction xs) (auto simp: insert_sorted_desc)

lemma sorted_rev_uminus: "sorted (map uminus (ys :: int list)) \<Longrightarrow> sorted (rev ys)"
  by (induction ys) (auto simp: sorted_append)

lemma salaries_desc_rev:
  "map salary (sort_key (\<lambda>e. - salary e) xs) = rev (map salary (sort_key salary (xs :: employee list)))"
proof -
  let ?d = "sort_key (\<lambda>e. - salary e) xs"
  let ?a = "sort_key salary xs"
  have "sorted (map (\<lambda>e. - salary e) ?d)" by (rule sorted_sort_key)
  then have "sorted (map uminus (map salary ?d))" by (simp add: comp_def)
  then have sd: "sorted (rev (map salary ?d))" by (rule sorted_rev_uminus)
  have md: "mset (rev (map salary ?d)) = mset (map salary xs)" by simp
  have sa: "sorted (map salary ?a)" by (rule sorted_sort_key)
  have ma: "mset (map salary ?a) = mset (map salary xs)" by simp
  have "sort (map salary xs) = rev (map salary ?d)" using md sd by (rule properties_for_sort)
  moreover have "sort (map salary xs) = map salary ?a" using ma sa by (rule properties_for_sort)
  ultimately have "rev (map salary ?d) = map salary ?a" by simp
  then show ?thesis by (metis rev_rev_ident)
qed

lemma sort_desc_rev_distinct:
  assumes "distinct (map salary (xs :: employee list))"
  shows "sort_key (\<lambda>e. - salary e) xs = rev (sort_key salary xs)"
proof -
  have inj: "inj_on salary (set xs)" using assms by (simp add: distinct_map)
  have "map salary (sort_key (\<lambda>e. - salary e) xs) = map salary (rev (sort_key salary xs))"
    by (simp add: salaries_desc_rev rev_map)
  moreover have "inj_on salary (set (sort_key (\<lambda>e. - salary e) xs) \<union> set (rev (sort_key salary xs)))"
    using inj by simp
  ultimately show ?thesis by (simp add: inj_on_map_eq_map)
qed

lemma stable_asc: "filter (\<lambda>e. salary e = k) (sort_key salary xs) = filter (\<lambda>e. salary e = k) xs"
  by (rule sort_key_stable)

lemma stable_desc:
  "filter (\<lambda>e. salary e = k) (sort_key (\<lambda>e. - salary e) xs) = filter (\<lambda>e. salary e = (k::int)) xs"
proof -
  have "filter (\<lambda>e. - salary e = - k) (sort_key (\<lambda>e. - salary e) xs) = filter (\<lambda>e. - salary e = - k) xs"
    by (rule sort_key_stable)
  then show ?thesis by simp
qed

lemma filtered_sortEmployees:
  "filteredEmployees (sortEmployees st) =
   sort_with (compareEmployees (sortField st) (sortDirection st)) (filteredEmployees st)"
  by (simp add: sortEmployees_def)

lemma matches_code_spec:
  "(matchesSearch (toLowerCase q) e \<and> matchesDept d e) = in_filtered_view q d e"
  by (simp add: matchesSearch_def matchesDept_def in_filtered_view_def is_substring_def
      includes_str_iff fullName_def toLowerCase_def)

lemma filtered_applyFilters:
  "filteredEmployees (applyFilters st) =
   sort_with (compareEmployees (sortField st) (sortDirection st))
     (filter (\<lambda>emp. matchesSearch (toLowerCase (searchInput st)) emp \<and> matchesDept (filterDepartment st) emp)
        (employees st))"
  by (simp add: applyFilters_def updatePagination_def renderTable_def sortEmployees_def Let_def)

lemma applyFilters_keeps:
  "employees (applyFilters st) = employees st"
  "currentPage (applyFilters st) = currentPage st"
  "rowsPerPage (applyFilters st) = rowsPerPage st"
  "searchInput (applyFilters st) = searchInput st"
  "filterDepartment (applyFilters st) = filterDepartment st"
  "toasts (applyFilters st) = toasts st"
  by (simp_all add: applyFilters_def updatePagination_def renderTable_def sortEmployees_def Let_def)

declare nat_toString.simps [simp del]

lemma split_no_sep: "c \<notin> set x \<Longrightarrow> split c x = [x]"
  by (induction x) auto

lemma split_append_sep: "c \<notin> set x \<Longrightarrow> split c (x @ c # rest) = x # split c rest"
  by (induction x) auto

lemma split_join:
  "xs \<noteq> [] \<Longrightarrow> \<forall>x \<in> set xs. c \<notin> set x \<Longrightarrow> split c (join [c] xs) = xs"
proof (induction "[c]" xs rule: join.induct)
  case 1
  then show ?case by simp
next
  case (2 x)
  then show ?case by (simp add: split_no_sep)
next
  case (3 x y ys)
  then show ?case by (simp add: split_append_sep)
qed

lemma nat_toString_digits: "set (nat_toString n) \<subseteq> digit_char ` {0..<10}"
proof (induction n rule: nat_toString.induct)
  case (1 n)
  show ?case
  proof (cases "n < 10")
    case True
    then show ?thesis by (subst nat_toString.simps) auto
  next
    case False
    then have "set (nat_toString (n div 10)) \<subseteq> digit_char ` {0..<10}" using 1 by simp
    moreover have "digit_char (n mod 10) \<in> digit_char ` {0..<10}" by simp
    ultimately show ?thesis using False by (subst nat_toString.simps) auto
  qed
qed

lemma digit_not_lf: "d < 10 \<Longrightarrow> digit_char d \<noteq> CHR 0x0A"
proof -
  assume "d < 10"
  then have "d \<in> {0, 1, 2, 3, 4, 5, 6, 7, 8, 9}" by auto
  then show ?thesis by (auto simp: digit_char_def)
qed

lemma nat_toString_no_lf: "CHR 0x0A \<notin> set (nat_toString n)"
  using nat_toString_digits [of n] digit_not_lf by fastforce

lemma int_toString_no_lf: "CHR 0x0A \<notin> set (int_toString i)"
  by (simp add: int_toString_def nat_toString_no_lf)

lemma header_line: "join '','' csv_headers = ''Name,Email,Department,Salary ('' @ rupee_sign @ '')''"
  by (simp add: csv_headers_def)

lemma header_no_lf: "CHR 0x0A \<notin> set (join '','' csv_headers)"
  by (simp add: csv_headers_def rupee_sign_def)

lemma row_line:
  "join '','' (map quote_cell (csv_cells e)) =
   [CHR 0x22] @ firstName e @ '' '' @ lastName e @ [CHR 0x22] @ '','' @
   [CHR 0x22] @ email e @ [CHR 0x22] @ '','' @
   [CHR 0x22] @ department e @ [CHR 0x22] @ '','' @
   [CHR 0x22] @ int_toString (salary e) @ [CHR 0x22]"
  by (simp add: csv_cells_def quote_cell_def fullName_def)

lemma row_no_lf: "no_line_break e \<Longrightarrow> CHR 0x0A \<notin> set (join '','' (map quote_cell (csv_cells e)))"
  by (simp add: row_line no_line_break_def int_toString_no_lf)

lemma page_in_range_first:
  "0 < rowsPerPage st \<Longrightarrow> currentPage st = 1 \<Longrightarrow> page_in_range st"
  by (simp add: page_in_range_def ceil_div_def)

lemma render_keeps:
  "filteredEmployees (updatePagination (renderTable st)) = filteredEmployees st"
  "currentPage (updatePagination (renderTable st)) = currentPage st"
  "rowsPerPage (updatePagination (renderTable st)) = rowsPerPage st"
  "employees (updatePagination (renderTable st)) = employees st"
  by (simp_all add: updatePagination_def renderTable_def Let_def)

lemma page_in_range_cong:
  "length (filteredEmployees a) = length (filteredEmployees b) \<Longrightarrow> rowsPerPage a = rowsPerPage b \<Longrightarrow>
   currentPage a = currentPage b \<Longrightarrow> page_in_range a = page_in_range b"
  by (simp add: page_in_range_def split: option.splits)

lemma page_in_range_grow:
  assumes "page_in_range a" "length (filteredEmployees a) \<le> length (filteredEmployees b)"
    "rowsPerPage a = rowsPerPage b" "currentPage a = currentPage b"
  shows "page_in_range b"
proof -
  let ?r = "rowsPerPage a"
  have r: "0 < ?r" using assms(1) by (auto simp: page_in_range_def ceil_div_def split: if_splits)
  have "(length (filteredEmployees a) + ?r - 1) div ?r \<le> (length (filteredEmployees b) + ?r - 1) div ?r"
    using assms(2) by (intro div_le_mono) simp
  then show ?thesis using assms r by (auto simp: page_in_range_def ceil_div_def)
qed

lemma applyFilters_view:
  "tableBody (applyFilters st) =
     slice (filteredEmployees (applyFilters st)) ((currentPage st - 1) * int (rowsPerPage st))
       ((currentPage st - 1) * int (rowsPerPage st) + int (rowsPerPage st))"
  "pageInfo (applyFilters st) =
     (currentPage st,
      map_option (max 1) (ceil_div (length (filteredEmployees (applyFilters st))) (rowsPerPage st)))"
  "nextDisabled (applyFilters st) =
     (map_option int (map_option (max 1)
        (ceil_div (length (filteredEmployees (applyFilters st))) (rowsPerPage st))) = Some (currentPage st))"
  by (simp_all add: applyFilters_def updatePagination_def renderTable_def sortEmployees_def Let_def)

lemma handleSearch_page: "0 < rowsPerPage st \<Longrightarrow> currentPage (handleSearch q st) = 1 \<and> page_in_range (handleSearch q st)"
  by (simp add: handleSearch_def applyFilters_keeps page_in_range_first)

lemma handleFilter_page: "0 < rowsPerPage st \<Longrightarrow> currentPage (handleFilter d st) = 1 \<and> page_in_range (handleFilter d st)"
  by (simp add: handleFilter_def applyFilters_keeps page_in_range_first)

lemma handleRows_page: "0 < r \<Longrightarrow> currentPage (handleRowsPerPageChange r st) = 1 \<and> page_in_range (handleRowsPerPageChange r st)"
  by (simp add: handleRowsPerPageChange_def render_keeps page_in_range_first)

lemma changePage_page: "page_in_range st \<Longrightarrow> page_in_range (changePage page st)"
  by (auto simp: changePage_def render_keeps page_in_range_def Let_def split: option.splits)

lemma handleSort_page: "page_in_range st \<Longrightarrow> page_in_range (handleSort f st)"
proof -
  have "length (filteredEmployees (handleSort f st)) = length (filteredEmployees st)"
    "rowsPerPage (handleSort f st) = rowsPerPage st" "currentPage (handleSort f st) = currentPage st"
    by (simp_all add: handleSort_def renderTable_def sortEmployees_def length_sort_with Let_def)
  then show "page_in_range st \<Longrightarrow> page_in_range (handleSort f st)"
    using page_in_range_cong by blast
qed

lemma showToast_page: "page_in_range (showToast a b c st) = page_in_range st"
  by (simp add: showToast_def page_in_range_def split: option.splits)

lemma applyFilters_grow:
  assumes "view_synced st"
  shows "length (filteredEmployees st) \<le> length (filteredEmployees (applyFilters (st\<lparr>employees := employees st @ [new]\<rparr>)))"
proof -
  let ?P = "\<lambda>emp. matchesSearch (toLowerCase (searchInput st)) emp \<and> matchesDept (filterDepartment st) emp"
  have "length (filteredEmployees st) = length (filter ?P (employees st))"
    using assms unfolding view_synced_def by (metis size_mset)
  then show ?thesis by (simp add: filtered_applyFilters length_sort_with)
qed

lemma addEmployee_page:
  assumes "page_in_range st" "view_synced st"
  shows "page_in_range (addEmployee d fetched st)"
proof -
  have g: "page_in_range (applyFilters (st\<lparr>employees := employees st @ [new]\<rparr>))" for new
    using assms(1) applyFilters_grow [OF assms(2)]
    by (rule page_in_range_grow) (simp_all add: applyFilters_keeps)
  show ?thesis
    using assms(1) g by (auto simp: addEmployee_def showToast_page split: promise.splits)
qed

lemma page_sizes:
  assumes "length (filteredEmployees st) = 25" "rowsPerPage st = 10"
  shows "map (\<lambda>p. length (tableBody (changePage p st))) [1, 2, 3] = [10, 10, 5] \<and> changePage 4 st = st"
  using assms
  by (simp add: changePage_def ceil_div_def updatePagination_def renderTable_def slice_def Let_def)

lemma pg_text_truthy: "\<not> falsy v \<Longrightarrow> \<exists>t. pg_text pg v = Some t"
  by (cases v) (auto simp: pg_text_def)

lemma pg_integer_Inr:
  "pg_integer v = Inr n \<Longrightarrow> v = JNum (JInt n) \<and> - 2147483648 \<le> n \<and> n \<le> 2147483647"
  by (auto simp: pg_integer_def split: jsval.splits jsnum.splits if_splits)

lemma pg_text_nonempty:
  "\<not> falsy v \<Longrightarrow> \<forall>w. driver_text pg w \<noteq> [] \<Longrightarrow> pg_text pg v = Some t \<Longrightarrow> t \<noteq> []"
  by (cases v) (auto simp: pg_text_def)

lemma bind_employee_Inr:
  assumes "bind_employee pg keys b = Inr v"
  shows "pg_text pg (body_firstName b) = Some (firstName v)"
    and "pg_text pg (body_lastName b) = Some (lastName v)"
    and "pg_text pg (body_email b) = Some (email v)"
    and "pg_text pg (body_department b) = Some (department v)"
    and "pg_integer (body_salary b) = Inr (salary v)"
    and "\<forall>s \<in> set keys. \<not> has_nul s"
proof -
  let ?texts = "[pg_text pg (body_firstName b), pg_text pg (body_lastName b),
                 pg_text pg (body_email b), pg_text pg (body_department b)]"
  have k: "\<not> ((\<exists>s \<in> set keys. has_nul s) \<or>
            (\<exists>t \<in> set ?texts. case t of None \<Rightarrow> False | Some s \<Rightarrow> has_nul s))"
    using assms unfolding bind_employee_def Let_def by (auto split: if_splits)
  then have c: "(case pg_integer (body_salary b) of
              Inl err \<Rightarrow> Inl err
            | Inr n \<Rightarrow>
                (case ?texts of
                   [Some f, Some l, Some e, Some d] \<Rightarrow>
                     Inr \<lparr>firstName = f, lastName = l, email = e, department = d, salary = n\<rparr>
                 | _ \<Rightarrow> Inl NotNullViolation)) = Inr v"
    using assms unfolding bind_employee_def Let_def by (simp only: if_False)
  obtain n where n: "pg_integer (body_salary b) = Inr n"
    using c by (cases "pg_integer (body_salary b)") auto
  obtain f where f: "pg_text pg (body_firstName b) = Some f"
    using c n by (cases "pg_text pg (body_firstName b)") auto
  obtain l where l: "pg_text pg (body_lastName b) = Some l"
    using c n f by (cases "pg_text pg (body_lastName b)") auto
  obtain e where e: "pg_text pg (body_email b) = Some e"
    using c n f l by (cases "pg_text pg (body_email b)") auto
  obtain d where d: "pg_text pg (body_department b) = Some d"
    using c n f l e by (cases "pg_text pg (body_department b)") auto
  have v: "v = \<lparr>firstName = f, lastName = l, email = e, department = d, salary = n\<rparr>"
    using c n f l e d by simp
  show "pg_text pg (body_firstName b) = Some (firstName v)" using f v by simp
  show "pg_text pg (body_lastName b) = Some (lastName v)" using l v by simp
  show "pg_text pg (body_email b) = Some (email v)" using e v by simp
  show "pg_text pg (body_department b) = Some (department v)" using d v by simp
  show "pg_integer (body_salary b) = Inr (salary v)" using n v by simp
  show "\<forall>s \<in> set keys. \<not> has_nul s" using k by blast
qed

lemma bind_employee_keys:
  assumes "bind_employee pg keys b = Inr v" "\<forall>s \<in> set keys'. \<not> has_nul s"
  shows "bind_employee pg keys' b = Inr v"
proof -
  let ?texts = "[pg_text pg (body_firstName b), pg_text pg (body_lastName b),
                 pg_text pg (body_email b), pg_text pg (body_department b)]"
  have k: "\<not> (\<exists>t \<in> set ?texts. case t of None \<Rightarrow> False | Some s \<Rightarrow> has_nul s)"
    using assms(1) unfolding bind_employee_def Let_def by (auto split: if_splits)
  have "\<not> (\<exists>s \<in> set keys. has_nul s)"
    using assms(1) unfolding bind_employee_def Let_def by (auto split: if_splits)
  then show ?thesis
    using assms k unfolding bind_employee_def Let_def by (simp only: if_False simp_thms) auto
qed

lemma post_status_400:
  "(fst (fst (post_employee pg id' b db uid)) = 400) = invalid_employee b"
  by (auto simp: post_employee_def split: sum.splits pg_error.splits prod.splits)

lemma put_status_400:
  "(fst (fst (put_employee pg id' b db uid)) = 400) = invalid_employee b"
  by (auto simp: put_employee_def split: sum.splits pg_error.splits prod.splits list.splits)

lemma storableD:
  assumes "storable pg id' uid b"
  shows "\<not> invalid_employee b"
    and "\<exists>v. bind_employee pg [id', uid] b = Inr v \<and> \<not> index_row_too_large pg [id'] \<and>
              \<not> index_row_too_large pg [uid, LOWER pg (email v)]"
  using assms by (auto simp: storable_def split: sum.splits)

lemma insert_employee_Inr:
  assumes "insert_employee pg id' b uid rows = Inr (row, rows')"
  shows "\<exists>v. bind_employee pg [id', uid] b = Inr v \<and>
     row = \<lparr>firstName = firstName v, lastName = lastName v, email = email v,
            department = department v, salary = salary v, emp_id = id'\<rparr> \<and>
     rows' = rows @ [\<lparr>firstName = firstName v, lastName = lastName v, email = email v,
            department = department v, salary = salary v, emp_id = id', userId = Some uid\<rparr>] \<and>
     (\<forall>r \<in> set rows. emp_id r \<noteq> id' \<and>
         \<not> (userId r = Some uid \<and> LOWER pg (email r) = LOWER pg (email v)))"
proof (cases "bind_employee pg [id', uid] b")
  case (Inl err)
  then show ?thesis using assms by (simp add: insert_employee_def)
next
  case (Inr v)
  then show ?thesis using assms
    unfolding insert_employee_def Let_def
    by (auto simp: returning_def same_owner_email_def split: if_splits)
qed

lemma insert_employee_conflict:
  assumes "storable pg id' uid b" "body_email b = JStr e"
    and "\<exists>r \<in> set rows. userId r = Some uid \<and> LOWER pg (email r) = LOWER pg e"
  shows "insert_employee pg id' b uid rows = Inl UniqueViolation"
proof -
  obtain v :: employeeData where v: "bind_employee pg [id', uid] b = Inr v" "\<not> index_row_too_large pg [id']"
    "\<not> index_row_too_large pg [uid, LOWER pg (email v)]"
    using storableD(2) [OF assms(1)] by blast
  have "pg_text pg (body_email b) = Some e" using assms(2) by (simp add: pg_text_def)
  then have e: "email v = e" using bind_employee_Inr(3) [OF v(1)] by simp
  show ?thesis using assms(3) v e
    unfolding insert_employee_def Let_def by (auto simp: same_owner_email_def)
qed

lemma post_employee_conflict:
  assumes "storable pg id' uid b" "body_email b = JStr e"
    and "\<exists>r \<in> set (employees_table db). userId r = Some uid \<and> LOWER pg (email r) = LOWER pg e"
  shows "post_employee pg id' b db uid =
         ((409, MessageJson ''An employee with this email already exists.''), db)"
  using storableD(1) [OF assms(1)] insert_employee_conflict [OF assms]
  by (simp add: post_employee_def)

lemma insert_employee_ok:
  assumes "storable pg id' uid b" "body_email b = JStr e"
    and "\<forall>r \<in> set rows. emp_id r \<noteq> id' \<and> \<not> (userId r = Some uid \<and> LOWER pg (email r) = LOWER pg e)"
  shows "\<exists>new. insert_employee pg id' b uid rows = Inr (returning new, rows @ [new]) \<and>
           userId new = Some uid \<and> email new = e \<and> emp_id new = id'"
proof -
  obtain v :: employeeData where v: "bind_employee pg [id', uid] b = Inr v" "\<not> index_row_too_large pg [id']"
    "\<not> index_row_too_large pg [uid, LOWER pg (email v)]"
    using storableD(2) [OF assms(1)] by blast
  have "pg_text pg (body_email b) = Some e" using assms(2) by (simp add: pg_text_def)
  then have e: "email v = e" using bind_employee_Inr(3) [OF v(1)] by simp
  show ?thesis using assms(3) v e
    unfolding insert_employee_def Let_def by (auto simp: same_owner_email_def)
qed

lemma post_employee_created:
  assumes "storable pg id' uid b" "body_email b = JStr e"
    and "\<forall>r \<in> set (employees_table db). emp_id r \<noteq> id' \<and>
           \<not> (userId r = Some uid \<and> LOWER pg (email r) = LOWER pg e)"
  shows "fst (fst (post_employee pg id' b db uid)) = 201 \<and>
         (\<exists>r \<in> set (employees_table (snd (post_employee pg id' b db uid))).
            userId r = Some uid \<and> LOWER pg (email r) = LOWER pg e)"
proof -
  obtain new where "insert_employee pg id' b uid (employees_table db) =
       Inr (returning new, employees_table db @ [new])"
     "userId new = Some uid" "email new = e"
    using insert_employee_ok [OF assms] by blast
  then show ?thesis using storableD(1) [OF assms(1)] by (auto simp: post_employee_def)
qed

lemma post_employee_201:
  assumes "post_employee pg id' b db uid = ((201, EmployeeJson row), db')"
  shows "\<not> invalid_employee b \<and>
         insert_employee pg id' b uid (employees_table db) = Inr (row, employees_table db') \<and>
         users_table db' = users_table db"
proof -
  have v: "\<not> invalid_employee b" using assms by (auto simp: post_employee_def)
  show ?thesis
  proof (cases "insert_employee pg id' b uid (employees_table db)")
    case (Inl err)
    then show ?thesis using assms v by (cases err) (simp_all add: post_employee_def)
  next
    case (Inr res)
    then show ?thesis using assms v by (cases res) (auto simp: post_employee_def)
  qed
qed

lemma post_employee_not_twice:
  assumes "post_employee pg id1 b1 db uid = ((201, EmployeeJson row), db1)"
    and "body_email b1 = JStr e1" "body_email b2 = JStr e2" "LOWER pg e1 = LOWER pg e2"
  shows "fst (fst (post_employee pg id2 b2 db1 uid)) \<noteq> 201"
proof
  assume two: "fst (fst (post_employee pg id2 b2 db1 uid)) = 201"
  obtain v :: employeeData where v: "bind_employee pg [id1, uid] b1 = Inr v"
    "employees_table db1 = employees_table db @
       [\<lparr>firstName = firstName v, lastName = lastName v, email = email v,
         department = department v, salary = salary v, emp_id = id1, userId = Some uid\<rparr>]"
    using insert_employee_Inr post_employee_201 [OF assms(1)] by blast
  have "pg_text pg (body_email b1) = Some e1" using assms(2) by (simp add: pg_text_def)
  then have e1: "email v = e1" using bind_employee_Inr(3) [OF v(1)] by simp
  have held: "\<exists>r \<in> set (employees_table db1). userId r = Some uid \<and> LOWER pg (email r) = LOWER pg e2"
    unfolding v(2) using e1 assms(4) by simp
  have nv: "\<not> invalid_employee b2" using two post_status_400 [of pg id2 b2 db1 uid] by auto
  show False
  proof (cases "insert_employee pg id2 b2 uid (employees_table db1)")
    case (Inl err)
    then show ?thesis using two nv by (cases err) (simp_all add: post_employee_def)
  next
    case (Inr res)
    obtain row2 rows2 where res: "res = (row2, rows2)" by (cases res)
    obtain w :: employeeData where w: "bind_employee pg [id2, uid] b2 = Inr w"
      "\<forall>r \<in> set (employees_table db1). emp_id r \<noteq> id2 \<and>
         \<not> (userId r = Some uid \<and> LOWER pg (email r) = LOWER pg (email w))"
      using insert_employee_Inr Inr res by blast
    have "pg_text pg (body_email b2) = Some e2" using assms(3) by (simp add: pg_text_def)
    then have "email w = e2" using bind_employee_Inr(3) [OF w(1)] by simp
    then show ?thesis using held w(2) by blast
  qed
qed

lemma insert_employee_unique:
  assumes "employees_unique pg rows" "insert_employee pg id' b uid rows = Inr (row, rows')"
  shows "employees_unique pg rows'"
proof -
  obtain v :: employeeData where
    r: "rows' = rows @ [\<lparr>firstName = firstName v, lastName = lastName v, email = email v,
            department = department v, salary = salary v, emp_id = id', userId = Some uid\<rparr>]"
    and fresh: "\<forall>r \<in> set rows. emp_id r \<noteq> id' \<and>
         \<not> (userId r = Some uid \<and> LOWER pg (email r) = LOWER pg (email v))"
    using insert_employee_Inr [OF assms(2)] by blast
  have "id' \<notin> emp_id ` set rows" using fresh by auto
  moreover have "(Some uid, LOWER pg (email v)) \<notin> owner_email pg ` {r \<in> set rows. userId r \<noteq> None}"
    using fresh by (auto simp: owner_email_def)
  ultimately show ?thesis using assms(1) by (simp add: employees_unique_def r owner_email_def)
qed

lemma post_employee_unique:
  assumes "employees_unique pg (employees_table db)"
  shows "employees_unique pg (employees_table (snd (post_employee pg id' b db uid)))"
proof (cases "invalid_employee b")
  case True
  then show ?thesis using assms by (simp add: post_employee_def)
next
  case False
  show ?thesis
  proof (cases "insert_employee pg id' b uid (employees_table db)")
    case (Inl err)
    then show ?thesis using assms False by (cases err) (simp_all add: post_employee_def)
  next
    case (Inr res)
    obtain row rows' where res: "res = (row, rows')" by (cases res)
    have "employees_unique pg rows'" using insert_employee_unique [OF assms] Inr res by simp
    then show ?thesis using False Inr res by (simp add: post_employee_def)
  qed
qed

lemma delete_employee_unique:
  assumes "employees_unique pg (employees_table db)"
  shows "employees_unique pg (employees_table (snd (delete_employee_route id' db uid)))"
proof -
  let ?keep = "\<lambda>r. \<not> (emp_id r = id' \<and> userId r = Some uid)"
  let ?rows = "employees_table db"
  have 1: "distinct (map emp_id (filter ?keep ?rows))"
    using assms by (simp add: employees_unique_def distinct_map_filter)
  have "distinct (map (owner_email pg) (filter (\<lambda>r. userId r \<noteq> None) ?rows))"
    using assms by (simp add: employees_unique_def)
  then have "distinct (map (owner_email pg) (filter ?keep (filter (\<lambda>r. userId r \<noteq> None) ?rows)))"
    by (rule distinct_map_filter)
  then have 2: "distinct (map (owner_email pg) (filter (\<lambda>r. userId r \<noteq> None) (filter ?keep ?rows)))"
    by (simp add: conj_commute)
  have "employees_unique pg (filter ?keep ?rows)" using 1 2 by (simp add: employees_unique_def)
  then show ?thesis
    using assms by (simp add: delete_employee_route_def delete_employee_def Let_def)
qed

lemma update_rows_split:
  fixes rows :: "employee_row list"
  assumes "distinct (map emp_id rows)" "r \<in> set rows" "emp_id r = id'"
  shows "\<exists>pre post. rows = pre @ r # post \<and> (\<forall>x \<in> set pre \<union> set post. emp_id x \<noteq> id')"
proof -
  obtain pre post where s: "rows = pre @ r # post" using assms(2) by (meson split_list)
  have "distinct (map emp_id (pre @ r # post))" using assms(1) s by simp
  then have "emp_id r \<notin> emp_id ` set pre" "emp_id r \<notin> emp_id ` set post" by auto
  then have "\<forall>x \<in> set pre \<union> set post. emp_id x \<noteq> emp_id r" by (metis UnE imageI)
  then show ?thesis using s assms(3) by blast
qed

lemma update_employee_Inr:
  assumes "update_employee pg id' b uid rows = Inr (out, rows')"
  shows "\<exists>v. bind_employee pg [id', uid] b = Inr v \<and>
     out = map (\<lambda>r. returning (r\<lparr>firstName := firstName v, lastName := lastName v, email := email v,
                        department := department v, salary := salary v\<rparr>))
             (filter (\<lambda>r. emp_id r = id' \<and> userId r = Some uid) rows) \<and>
     rows' = map (\<lambda>r. if emp_id r = id' \<and> userId r = Some uid
                      then r\<lparr>firstName := firstName v, lastName := lastName v, email := email v,
                             department := department v, salary := salary v\<rparr>
                      else r) rows \<and>
     \<not> ((\<exists>r \<in> set rows. emp_id r = id' \<and> userId r = Some uid) \<and>
        (\<exists>r \<in> set rows. \<not> (emp_id r = id' \<and> userId r = Some uid) \<and> userId r = Some uid \<and>
            LOWER pg (email r) = LOWER pg (email v)))"
proof (cases "bind_employee pg [id', uid] b")
  case (Inl err)
  then show ?thesis using assms by (simp add: update_employee_def)
next
  case (Inr v)
  let ?hit = "\<exists>r \<in> set rows. emp_id r = id' \<and> userId r = Some uid"
  let ?c = "?hit \<and>
     (\<exists>r \<in> set rows. \<not> (emp_id r = id' \<and> userId r = Some uid) \<and> userId r = Some uid \<and>
        LOWER pg (email r) = LOWER pg (email v))"
  have big: "\<not> (?hit \<and> index_row_too_large pg [uid, LOWER pg (email v)])"
  proof
    assume "?hit \<and> index_row_too_large pg [uid, LOWER pg (email v)]"
    then have "update_employee pg id' b uid rows = Inl ProgramLimitExceeded"
      unfolding update_employee_def Inr Let_def by simp
    then show False using assms by simp
  qed
  have nc: "\<not> ?c"
  proof
    assume ?c
    then have "update_employee pg id' b uid rows = Inl UniqueViolation"
      using big unfolding update_employee_def Inr Let_def by simp
    then show False using assms by simp
  qed
  have "update_employee pg id' b uid rows =
      Inr (map (\<lambda>r. returning (r\<lparr>firstName := firstName v, lastName := lastName v, email := email v,
                        department := department v, salary := salary v\<rparr>))
             (filter (\<lambda>r. emp_id r = id' \<and> userId r = Some uid) rows),
           map (\<lambda>r. if emp_id r = id' \<and> userId r = Some uid
                      then r\<lparr>firstName := firstName v, lastName := lastName v, email := email v,
                             department := department v, salary := salary v\<rparr>
                      else r) rows)"
    using big nc unfolding update_employee_def Inr Let_def by simp
  then show ?thesis using assms nc Inr by auto
qed

lemma update_employee_unique:
  assumes "employees_unique pg rows" "update_employee pg id' b uid rows = Inr (out, rows')"
  shows "employees_unique pg rows'"
proof -
  let ?hit = "\<lambda>r. emp_id r = id' \<and> userId r = Some uid"
  obtain v :: employeeData where
    r: "rows' = map (\<lambda>r. if ?hit r then r\<lparr>firstName := firstName v, lastName := lastName v,
                  email := email v, department := department v, salary := salary v\<rparr> else r) rows"
    and free: "\<not> ((\<exists>r \<in> set rows. ?hit r) \<and>
                 (\<exists>r \<in> set rows. \<not> ?hit r \<and> userId r = Some uid \<and>
                    LOWER pg (email r) = LOWER pg (email v)))"
    using update_employee_Inr [OF assms(2)] by blast
  let ?set = "\<lambda>r :: employee_row. r\<lparr>firstName := firstName v, lastName := lastName v,
                  email := email v, department := department v, salary := salary v\<rparr>"
  show ?thesis
  proof (cases "\<exists>r \<in> set rows. ?hit r")
    case False
    then have "rows' = rows" unfolding r by (induction rows) auto
    then show ?thesis using assms(1) by simp
  next
    case True
    then obtain t where t: "t \<in> set rows" "?hit t" by blast
    obtain pre post where s: "rows = pre @ t # post" and o: "\<forall>x \<in> set pre \<union> set post. emp_id x \<noteq> id'"
      using update_rows_split [of rows t id'] assms(1) t by (auto simp: employees_unique_def)
    have pre: "map (\<lambda>r. if ?hit r then ?set r else r) pre = pre"
      using o by (induction pre) auto
    have post: "map (\<lambda>r. if ?hit r then ?set r else r) post = post"
      using o by (induction post) auto
    have r': "rows' = pre @ ?set t # post" unfolding r s using pre post t by simp
    have others: "\<forall>x \<in> set pre \<union> set post. \<not> ?hit x" using o by auto
    have nokey: "\<forall>x \<in> set pre \<union> set post.
        \<not> (userId x = Some uid \<and> LOWER pg (email x) = LOWER pg (email v))"
      using free True others unfolding s by auto
    let ?own = "\<lambda>r::employee_row. userId r \<noteq> None"
    let ?A = "map (owner_email pg) (filter ?own pre)"
    let ?B = "map (owner_email pg) (filter ?own post)"
    have ids: "map emp_id rows' = map emp_id rows" unfolding r' s by simp
    have old: "distinct (?A @ owner_email pg t # ?B)"
      using assms(1) t unfolding employees_unique_def s by simp
    have new: "owner_email pg (?set t) \<notin> set ?A \<union> set ?B"
      using nokey t by (auto simp: owner_email_def)
    have "distinct (?A @ owner_email pg (?set t) # ?B)" using old new by auto
    moreover have "map (owner_email pg) (filter ?own rows') = ?A @ owner_email pg (?set t) # ?B"
      unfolding r' using t by simp
    ultimately have "distinct (map (owner_email pg) (filter ?own rows'))" by simp
    moreover have "distinct (map emp_id rows')" using assms(1) ids by (simp add: employees_unique_def)
    ultimately show ?thesis by (simp add: employees_unique_def)
  qed
qed

lemma put_employee_unique:
  assumes "employees_unique pg (employees_table db)"
  shows "employees_unique pg (employees_table (snd (put_employee pg id' b db uid)))"
proof (cases "invalid_employee b")
  case True
  then show ?thesis using assms by (simp add: put_employee_def)
next
  case False
  show ?thesis
  proof (cases "update_employee pg id' b uid (employees_table db)")
    case (Inl err)
    then show ?thesis using assms False by (cases err) (simp_all add: put_employee_def)
  next
    case (Inr res)
    obtain out rows' where res: "res = (out, rows')" by (cases res)
    have u: "employees_unique pg rows'" using update_employee_unique [OF assms] Inr res by simp
    show ?thesis using assms False Inr res u by (cases out) (simp_all add: put_employee_def)
  qed
qed

lemma put_employee_conflict:
  assumes "storable pg id' uid b" "body_email b = JStr e"
    and "\<exists>r \<in> set (employees_table db). emp_id r = id' \<and> userId r = Some uid"
    and "\<exists>r \<in> set (employees_table db). emp_id r \<noteq> id' \<and> userId r = Some uid \<and>
           LOWER pg (email r) = LOWER pg e"
  shows "put_employee pg id' b db uid =
         ((409, MessageJson ''An employee with this email already exists.''), db)"
proof -
  obtain v :: employeeData where v: "bind_employee pg [id', uid] b = Inr v"
    "\<not> index_row_too_large pg [uid, LOWER pg (email v)]"
    using storableD(2) [OF assms(1)] by blast
  have "pg_text pg (body_email b) = Some e" using assms(2) by (simp add: pg_text_def)
  then have e: "email v = e" using bind_employee_Inr(3) [OF v(1)] by simp
  have c: "(\<exists>r \<in> set (employees_table db). emp_id r = id' \<and> userId r = Some uid) \<and>
           (\<exists>r \<in> set (employees_table db). \<not> (emp_id r = id' \<and> userId r = Some uid) \<and>
              userId r = Some uid \<and> LOWER pg (email r) = LOWER pg (email v))"
    using assms(3,4) e by blast
  have "update_employee pg id' b uid (employees_table db) = Inl UniqueViolation"
    unfolding update_employee_def v(1) Let_def using c v(2) by simp
  then show ?thesis using storableD(1) [OF assms(1)] by (simp add: put_employee_def)
qed

lemma post_employee_salary:
  assumes "post_employee pg id' b db uid = ((201, EmployeeJson row), db')"
  shows "body_salary b = JNum (JInt (salary row)) \<and> - 2147483648 \<le> salary row \<and> salary row \<le> 2147483647"
proof -
  obtain v :: employeeData where v: "bind_employee pg [id', uid] b = Inr v"
    "row = \<lparr>firstName = firstName v, lastName = lastName v, email = email v,
            department = department v, salary = salary v, emp_id = id'\<rparr>"
    using insert_employee_Inr post_employee_201 [OF assms] by blast
  have "pg_integer (body_salary b) = Inr (salary row)" using bind_employee_Inr(5) [OF v(1)] v(2) by simp
  then show ?thesis using pg_integer_Inr by blast
qed

lemma put_employee_salary:
  assumes "put_employee pg id' b db uid = ((200, EmployeeJson row), db')"
  shows "body_salary b = JNum (JInt (salary row)) \<and> - 2147483648 \<le> salary row \<and> salary row \<le> 2147483647"
proof -
  have nv: "\<not> invalid_employee b" using assms by (auto simp: put_employee_def)
  show ?thesis
  proof (cases "update_employee pg id' b uid (employees_table db)")
    case (Inl err)
    then show ?thesis using assms nv by (cases err) (simp_all add: put_employee_def)
  next
    case (Inr res)
    obtain out rows' where res: "res = (out, rows')" by (cases res)
    obtain v :: employeeData where v: "bind_employee pg [id', uid] b = Inr v"
      "out = map (\<lambda>r. returning (r\<lparr>firstName := firstName v, lastName := lastName v, email := email v,
                        department := department v, salary := salary v\<rparr>))
             (filter (\<lambda>r. emp_id r = id' \<and> userId r = Some uid) (employees_table db))"
      using update_employee_Inr Inr res by blast
    have "row \<in> set out" using assms nv Inr res by (cases out) (simp_all add: put_employee_def)
    then have "salary row = salary v" unfolding v(2) by (auto simp: returning_def)
    then have "pg_integer (body_salary b) = Inr (salary row)" using bind_employee_Inr(5) [OF v(1)] by simp
    then show ?thesis using pg_integer_Inr by blast
  qed
qed

lemma bound_texts_nonempty:
  assumes "\<not> invalid_employee b" "\<forall>w. driver_text pg w \<noteq> []" "bind_employee pg keys b = Inr v"
  shows "firstName v \<noteq> [] \<and> lastName v \<noteq> [] \<and> email v \<noteq> [] \<and> department v \<noteq> []"
proof -
  have t: "\<not> falsy (body_firstName b)" "\<not> falsy (body_lastName b)" "\<not> falsy (body_email b)"
    "\<not> falsy (body_department b)"
    using assms(1) by (auto simp: invalid_employee_def)
  show ?thesis
    using pg_text_nonempty [OF t(1) assms(2) bind_employee_Inr(1) [OF assms(3)]]
      pg_text_nonempty [OF t(2) assms(2) bind_employee_Inr(2) [OF assms(3)]]
      pg_text_nonempty [OF t(3) assms(2) bind_employee_Inr(3) [OF assms(3)]]
      pg_text_nonempty [OF t(4) assms(2) bind_employee_Inr(4) [OF assms(3)]]
    by simp
qed

lemma post_employee_nonempty:
  assumes "\<forall>w. driver_text pg w \<noteq> []" "list_all nonempty_fields (employees_table db)"
  shows "list_all nonempty_fields (employees_table (snd (post_employee pg id' b db uid)))"
proof (cases "invalid_employee b")
  case True
  then show ?thesis using assms by (simp add: post_employee_def)
next
  case False
  show ?thesis
  proof (cases "insert_employee pg id' b uid (employees_table db)")
    case (Inl err)
    then show ?thesis using assms False by (cases err) (simp_all add: post_employee_def)
  next
    case (Inr res)
    obtain row rows' where res: "res = (row, rows')" by (cases res)
    obtain v :: employeeData where v: "bind_employee pg [id', uid] b = Inr v"
      "rows' = employees_table db @ [\<lparr>firstName = firstName v, lastName = lastName v, email = email v,
            department = department v, salary = salary v, emp_id = id', userId = Some uid\<rparr>]"
      using insert_employee_Inr Inr res by blast
    have "list_all nonempty_fields rows'"
      using assms(2) bound_texts_nonempty [OF False assms(1) v(1)] unfolding v(2)
      by (simp add: nonempty_fields_def)
    then show ?thesis using False Inr res by (simp add: post_employee_def)
  qed
qed

lemma put_employee_nonempty:
  assumes "\<forall>w. driver_text pg w \<noteq> []" "list_all nonempty_fields (employees_table db)"
  shows "list_all nonempty_fields (employees_table (snd (put_employee pg id' b db uid)))"
proof (cases "invalid_employee b")
  case True
  then show ?thesis using assms by (simp add: put_employee_def)
next
  case False
  show ?thesis
  proof (cases "update_employee pg id' b uid (employees_table db)")
    case (Inl err)
    then show ?thesis using assms False by (cases err) (simp_all add: put_employee_def)
  next
    case (Inr res)
    obtain out rows' where res: "res = (out, rows')" by (cases res)
    obtain v :: employeeData where v: "bind_employee pg [id', uid] b = Inr v"
      "rows' = map (\<lambda>r. if emp_id r = id' \<and> userId r = Some uid
                      then r\<lparr>firstName := firstName v, lastName := lastName v, email := email v,
                             department := department v, salary := salary v\<rparr>
                      else r) (employees_table db)"
      using update_employee_Inr Inr res by blast
    have ne: "list_all nonempty_fields rows'"
      using assms(2) bound_texts_nonempty [OF False assms(1) v(1)] unfolding v(2)
      by (auto simp: list_all_iff nonempty_fields_def)
    show ?thesis using assms False Inr res ne by (cases out) (simp_all add: put_employee_def)
  qed
qed

lemma register_created:
  assumes "registrable hash pg id' n e p"
    and "\<forall>u \<in> set (users_table db). user_id u \<noteq> id' \<and> user_email u \<noteq> e"
  shows "register hash pg id' \<lparr>body_name = JStr n, body_user_email = JStr e, body_password = JStr p\<rparr> db =
     ((201, MessageUserJson ''Registration successful'' \<lparr>user_id = id', name = n, user_email = e\<rparr>),
      db\<lparr>users_table := users_table db @ [\<lparr>user_id = id', name = n, user_email = e, password = hash p\<rparr>]\<rparr>)"
proof -
  have s: "select_users_by_email e (users_table db) = Inr []"
    using assms by (auto simp: select_users_by_email_def registrable_def filter_empty_conv)
  have i: "insert_user pg \<lparr>user_id = id', name = n, user_email = e, password = hash p\<rparr> (users_table db) =
      Inr (\<lparr>user_id = id', name = n, user_email = e\<rparr>,
           users_table db @ [\<lparr>user_id = id', name = n, user_email = e, password = hash p\<rparr>])"
    using assms by (auto simp: insert_user_def registrable_def)
  have p: "p \<noteq> []" using assms(1) by (auto simp: registrable_def)
  show ?thesis
    using assms(1) p by (simp add: register_def too_short_def pg_text_def registrable_def s i)
qed

lemma register_conflict:
  assumes "n \<noteq> []" "e \<noteq> []" "6 \<le> length p" "\<not> has_nul e"
    and "\<exists>u \<in> set (users_table db). user_email u = e"
  shows "register hash pg id' \<lparr>body_name = JStr n, body_user_email = JStr e, body_password = JStr p\<rparr> db =
     ((409, ErrorJson ''User with this email already exists''), db)"
proof -
  have "filter (\<lambda>u. user_email u = e) (users_table db) \<noteq> []"
    using assms(5) by (simp add: filter_empty_conv)
  then obtain u rest where "select_users_by_email e (users_table db) = Inr (u # rest)"
    using assms(4) by (cases "filter (\<lambda>u. user_email u = e) (users_table db)")
      (auto simp: select_users_by_email_def)
  moreover have "p \<noteq> []" using assms(3) by auto
  ultimately show ?thesis using assms(1-3) by (simp add: register_def too_short_def pg_text_def)
qed

section \<open>The claims\<close>

subsection \<open>C1: the session check of the employee routes\<close>

text \<open>
  C1 says that the session check of the employee routes resolves the user id of the cookie to a
  user record by a store lookup, and answers 401 when the cookie is missing or the id
  names no user. \<open>authRequired\<close> only tests that the cookie carries a non-empty id:
  with an empty store, a request with the cookie \<open>uid=ghost\<close> lists employees (200, the
  empty list) and creates one (201), while \<open>GET /api/auth/me\<close>, which does look the id
  up, answers 401 to the same cookie. A request without a cookie is answered 401.
\<close>

theorem authRequired_accepts_unknown_user:
  "GET_api_employees Some sample_pg (Some ''uid=ghost'') empty_db = ((200, EmployeesJson []), empty_db)
   \<and> fst (fst (POST_api_employees Some sample_pg ''id1'' (Some ''uid=ghost'') jane empty_db)) = 201
   \<and> auth_me Some (Some ''uid=ghost'') empty_db = Some (401, ErrorJson ''Unauthorized'')
   \<and> GET_api_employees Some sample_pg None empty_db = ((401, ErrorJson ''Unauthorized''), empty_db)"
  by (simp add: GET_api_employees_def POST_api_employees_def authRequired_def getUserIdFromCookie_def
      auth_me_def trim_def is_space_def startsWith_def empty_db_def get_employees_def
      select_employees_def select_users_by_id_def has_nul_def post_employee_def invalid_employee_def
      jane_def insert_employee_def bind_employee_def pg_integer_def pg_text_def sample_pg_def
      same_owner_email_def Let_def)

subsection \<open>C2: the current page\<close>

text \<open>
  C2 says that the current page lies between 1 and max(1, ceil(filteredCount / pageSize))
  after every operation, delete included. Take six records, five to a page, sorted by
  salary, with the second page open, which shows the sixth record; the page is in range
  and the filtered list is the one the cache gives. After the sixth record is deleted
  with success, five records are left on one page, and the current page is still 2: the
  table is empty, the label reads page 2 of 1 and the button to the next page is not
  disabled. A search from the same state sets the page to 1.
\<close>

theorem page_left_out_of_range:
  "page_in_range second_page \<and> view_synced second_page
   \<and> succeeded (Resolved deleted_response)
   \<and> currentPage (deleteEmployee ''6'' True (Resolved deleted_response) second_page) = 2
   \<and> length (filteredEmployees (deleteEmployee ''6'' True (Resolved deleted_response) second_page)) = 5
   \<and> rowsPerPage (deleteEmployee ''6'' True (Resolved deleted_response) second_page) = 5
   \<and> \<not> page_in_range (deleteEmployee ''6'' True (Resolved deleted_response) second_page)
   \<and> tableBody (deleteEmployee ''6'' True (Resolved deleted_response) second_page) = []
   \<and> pageInfo (deleteEmployee ''6'' True (Resolved deleted_response) second_page) = (2, Some 1)
   \<and> nextDisabled (deleteEmployee ''6'' True (Resolved deleted_response) second_page) = False
   \<and> currentPage (handleSearch [] second_page) = 1
   \<and> page_in_range (handleSearch [] second_page)"
proof -
  let ?after = "deleteEmployee ''6'' True (Resolved deleted_response) second_page"
  let ?cut = "second_page\<lparr>employees := filter (\<lambda>emp. emp_id emp \<noteq> ''6'') (employees second_page)\<rparr>"
  have p: "page_in_range second_page"
    by (simp add: page_in_range_def ceil_div_def second_page_def initial_client_def six_workers_def)
  have v: "view_synced second_page"
    by (simp add: view_synced_def second_page_def initial_client_def six_workers_def
        matchesSearch_def matchesDept_def toLowerCase_def)
  have s: "succeeded (Resolved deleted_response)"
    by (simp add: succeeded_def deleted_response_def)
  have f: "find (\<lambda>emp. emp_id emp = ''6'') (employees second_page) = Some (worker ''6'' 60)"
    by (simp add: second_page_def six_workers_def worker_def)
  have a: "?after =
      showToast ''Employee Deleted'' (fullName (worker ''6'' 60) @ '' has been removed.'') ''destructive''
        (applyFilters ?cut)"
    unfolding deleteEmployee_def f by (simp add: deleted_response_def)
  have c: "currentPage ?after = 2" "rowsPerPage ?after = 5"
    unfolding a by (simp_all add: showToast_def applyFilters_keeps second_page_def)
  have k: "currentPage ?cut = 2" "rowsPerPage ?cut = 5"
    by (simp_all add: second_page_def)
  have m: "length (filteredEmployees (applyFilters ?cut)) = 5"
    by (simp add: filtered_applyFilters length_sort_with second_page_def
        initial_client_def six_workers_def worker_def matchesSearch_def matchesDept_def toLowerCase_def)
  have n: "length (filteredEmployees ?after) = 5"
    unfolding a using m by (simp add: showToast_def)
  have o: "\<not> page_in_range ?after"
    unfolding page_in_range_def c n by (simp add: ceil_div_def)
  have t: "tableBody (applyFilters ?cut) = []"
    unfolding applyFilters_view k by (simp add: slice_def m)
  have t': "tableBody ?after = []"
    unfolding a using t by (simp add: showToast_def)
  have i: "pageInfo (applyFilters ?cut) = (2, Some 1)" "nextDisabled (applyFilters ?cut) = False"
    unfolding applyFilters_view k m by (simp_all add: ceil_div_def)
  have i': "pageInfo ?after = (2, Some 1)" "nextDisabled ?after = False"
    unfolding a using i by (simp_all add: showToast_def)
  have r: "0 < rowsPerPage second_page" by (simp add: second_page_def initial_client_def)
  have h: "currentPage (handleSearch [] second_page) = 1 \<and> page_in_range (handleSearch [] second_page)"
    by (rule handleSearch_page [OF r])
  show ?thesis using p v s c n o t' i' h by blast
qed

subsection \<open>C3: employee emails are unique per owner, whatever their case\<close>

text \<open>
  C3 as amended: of two creates of one owner whose emails are equal in lower case, never
  both succeed. When the first succeeds, the second, if it passes the validation and the
  store takes its values, answers 409 and leaves the store as the first one left it.
  Exactly one succeeds, the first, when both pass the validation with values the store
  takes, the owner has no row with that email in any case yet and the first id is new.
  An update that would give a row the email, in any case, of another row of the same
  owner answers 409 and changes nothing. The routes keep the invariant of the table:
  distinct ids, and distinct pairs of owner and lower-case email. The handlers make no
  check of their own; the conflict is the error 23505 of the store.
\<close>

theorem employee_email_unique_per_owner:
  "(body_email b1 = JStr e1 \<and> body_email b2 = JStr e2 \<and> LOWER pg e1 = LOWER pg e2 \<and>
    post_employee pg id1 b1 db uid = ((201, EmployeeJson row), db1) \<longrightarrow>
      fst (fst (post_employee pg id2 b2 db1 uid)) \<noteq> 201 \<and>
      (storable pg id2 uid b2 \<longrightarrow>
         post_employee pg id2 b2 db1 uid =
           ((409, MessageJson ''An employee with this email already exists.''), db1)))
   \<and> (storable pg id1 uid b1 \<and> storable pg id2 uid b2 \<and>
       body_email b1 = JStr e1 \<and> body_email b2 = JStr e2 \<and> LOWER pg e1 = LOWER pg e2 \<and>
       (\<forall>r \<in> set (employees_table db).
          emp_id r \<noteq> id1 \<and> \<not> (userId r = Some uid \<and> LOWER pg (email r) = LOWER pg e1)) \<longrightarrow>
      fst (fst (post_employee pg id1 b1 db uid)) = 201 \<and>
      post_employee pg id2 b2 (snd (post_employee pg id1 b1 db uid)) uid =
        ((409, MessageJson ''An employee with this email already exists.''),
         snd (post_employee pg id1 b1 db uid)))
   \<and> (storable pg id' uid b \<and> body_email b = JStr e \<and>
       (\<exists>r \<in> set (employees_table db). emp_id r = id' \<and> userId r = Some uid) \<and>
       (\<exists>r \<in> set (employees_table db). emp_id r \<noteq> id' \<and> userId r = Some uid \<and>
            LOWER pg (email r) = LOWER pg e) \<longrightarrow>
      put_employee pg id' b db uid =
        ((409, MessageJson ''An employee with this email already exists.''), db))
   \<and> (employees_unique pg (employees_table db) \<longrightarrow>
      employees_unique pg (employees_table (snd (post_employee pg id' b db uid))) \<and>
      employees_unique pg (employees_table (snd (put_employee pg id' b db uid))) \<and>
      employees_unique pg (employees_table (snd (delete_employee_route id' db uid))))"
proof -
  have 0: "fst (fst (post_employee pg id2 b2 db1 uid)) \<noteq> 201 \<and>
      (storable pg id2 uid b2 \<longrightarrow>
         post_employee pg id2 b2 db1 uid =
           ((409, MessageJson ''An employee with this email already exists.''), db1))"
    if h: "body_email b1 = JStr e1" "body_email b2 = JStr e2" "LOWER pg e1 = LOWER pg e2"
      "post_employee pg id1 b1 db uid = ((201, EmployeeJson row), db1)"
  proof -
    obtain v :: employeeData where v: "bind_employee pg [id1, uid] b1 = Inr v"
      "employees_table db1 = employees_table db @
         [\<lparr>firstName = firstName v, lastName = lastName v, email = email v,
           department = department v, salary = salary v, emp_id = id1, userId = Some uid\<rparr>]"
      using insert_employee_Inr post_employee_201 [OF h(4)] by blast
    have "pg_text pg (body_email b1) = Some e1" using h(1) by (simp add: pg_text_def)
    then have "email v = e1" using bind_employee_Inr(3) [OF v(1)] by simp
    then have held: "\<exists>r \<in> set (employees_table db1). userId r = Some uid \<and>
        LOWER pg (email r) = LOWER pg e2"
      unfolding v(2) using h(3) by simp
    show ?thesis
      using post_employee_not_twice [OF h(4) h(1) h(2) h(3), of id2]
        post_employee_conflict [OF _ h(2) held, of id2]
      by blast
  qed
  have 1: "fst (fst (post_employee pg id1 b1 db uid)) = 201 \<and>
      post_employee pg id2 b2 (snd (post_employee pg id1 b1 db uid)) uid =
        ((409, MessageJson ''An employee with this email already exists.''),
         snd (post_employee pg id1 b1 db uid))"
    if h: "storable pg id1 uid b1" "storable pg id2 uid b2" "body_email b1 = JStr e1"
      "body_email b2 = JStr e2" "LOWER pg e1 = LOWER pg e2"
      "\<forall>r \<in> set (employees_table db).
        emp_id r \<noteq> id1 \<and> \<not> (userId r = Some uid \<and> LOWER pg (email r) = LOWER pg e1)"
  proof -
    let ?db1 = "snd (post_employee pg id1 b1 db uid)"
    have c: "fst (fst (post_employee pg id1 b1 db uid)) = 201" and
      x: "\<exists>r \<in> set (employees_table ?db1). userId r = Some uid \<and> LOWER pg (email r) = LOWER pg e1"
      using post_employee_created [OF h(1) h(3) h(6)] by simp_all
    have "\<exists>r \<in> set (employees_table ?db1). userId r = Some uid \<and> LOWER pg (email r) = LOWER pg e2"
      using x h(5) by simp
    then show ?thesis using c post_employee_conflict [OF h(2) h(4)] by simp
  qed
  show ?thesis
    using 0 1 put_employee_conflict [of pg id' uid b e db] post_employee_unique [of pg db id' b uid]
      put_employee_unique [of pg db id' b uid] delete_employee_unique [of pg db id' uid]
    by blast
qed

theorem employee_email_unique_per_owner_witness:
  "storable sample_pg ''id1'' ''u1'' jane \<and> storable sample_pg ''id2'' ''u1'' jane_upper
   \<and> LOWER sample_pg ''jane@x.com'' = LOWER sample_pg ''JANE@X.com''
   \<and> post_employee sample_pg ''id1'' jane empty_db ''u1'' =
       ((201, EmployeeJson (returning (jane_row ''id1'' ''jane@x.com'' ''u1''))),
        \<lparr>employees_table = [jane_row ''id1'' ''jane@x.com'' ''u1''], users_table = []\<rparr>)
   \<and> post_employee sample_pg ''id2'' jane_upper
        \<lparr>employees_table = [jane_row ''id1'' ''jane@x.com'' ''u1''], users_table = []\<rparr> ''u1'' =
       ((409, MessageJson ''An employee with this email already exists.''),
        \<lparr>employees_table = [jane_row ''id1'' ''jane@x.com'' ''u1''], users_table = []\<rparr>)
   \<and> post_employee sample_pg ''id2'' jane_upper (snd (post_employee sample_pg ''id1'' jane empty_db ''u1'')) ''u1'' =
       ((409, MessageJson ''An employee with this email already exists.''),
        snd (post_employee sample_pg ''id1'' jane empty_db ''u1''))
   \<and> employees_unique sample_pg [jane_row ''id1'' ''jane@x.com'' ''u1'', jane_row ''id2'' ''joe@x.com'' ''u1'']
   \<and> put_employee sample_pg ''id2'' jane_upper
        \<lparr>employees_table = [jane_row ''id1'' ''jane@x.com'' ''u1'', jane_row ''id2'' ''joe@x.com'' ''u1''],
         users_table = []\<rparr> ''u1'' =
       ((409, MessageJson ''An employee with this email already exists.''),
        \<lparr>employees_table = [jane_row ''id1'' ''jane@x.com'' ''u1'', jane_row ''id2'' ''joe@x.com'' ''u1''],
         users_table = []\<rparr>)
   \<and> employees_unique sample_pg (employees_table (snd (post_employee sample_pg ''id3'' jane
        \<lparr>employees_table = [jane_row ''id1'' ''jane@x.com'' ''u1'', jane_row ''id2'' ''joe@x.com'' ''u1''],
         users_table = []\<rparr> ''u2'')))"
proof -
  let ?one = "\<lparr>employees_table = [jane_row ''id1'' ''jane@x.com'' ''u1''], users_table = []\<rparr>"
  let ?two = "\<lparr>employees_table = [jane_row ''id1'' ''jane@x.com'' ''u1'', jane_row ''id2'' ''joe@x.com'' ''u1''],
         users_table = []\<rparr>"
  have s1: "storable sample_pg ''id1'' ''u1'' jane"
    by (simp add: storable_def invalid_employee_def jane_def bind_employee_def pg_integer_def
        pg_text_def has_nul_def sample_pg_def)
  have s2: "storable sample_pg ''id2'' ''u1'' jane_upper"
    by (simp add: storable_def invalid_employee_def jane_upper_def jane_def bind_employee_def
        pg_integer_def pg_text_def has_nul_def sample_pg_def)
  have e1: "body_email jane = JStr ''jane@x.com''" by (simp add: jane_def)
  have e2: "body_email jane_upper = JStr ''JANE@X.com''" by (simp add: jane_upper_def)
  have lo: "LOWER sample_pg ''jane@x.com'' = LOWER sample_pg ''JANE@X.com''"
    by (simp add: sample_pg_def toLowerCase_def lower_char_def upper_letters_def lower_letters_def)
  have first: "post_employee sample_pg ''id1'' jane empty_db ''u1'' =
      ((201, EmployeeJson (returning (jane_row ''id1'' ''jane@x.com'' ''u1''))), ?one)"
    by (simp add: post_employee_def invalid_employee_def jane_def insert_employee_def bind_employee_def
        pg_integer_def pg_text_def has_nul_def sample_pg_def empty_db_def returning_def jane_row_def
        same_owner_email_def Let_def)
  have fresh: "\<forall>r \<in> set (employees_table empty_db).
        emp_id r \<noteq> ''id1'' \<and> \<not> (userId r = Some ''u1'' \<and>
          LOWER sample_pg (email r) = LOWER sample_pg ''jane@x.com'')"
    by (simp add: empty_db_def)
  have hit: "\<exists>r \<in> set (employees_table ?two). emp_id r = ''id2'' \<and> userId r = Some ''u1''"
    by (simp add: jane_row_def)
  have other: "\<exists>r \<in> set (employees_table ?two). emp_id r \<noteq> ''id2'' \<and> userId r = Some ''u1'' \<and>
            LOWER sample_pg (email r) = LOWER sample_pg ''JANE@X.com''"
    using lo by (simp add: jane_row_def)
  have u: "employees_unique sample_pg (employees_table ?two)"
    by (simp add: employees_unique_def jane_row_def owner_email_def sample_pg_def toLowerCase_def
        lower_char_def upper_letters_def lower_letters_def)
  note a = employee_email_unique_per_owner [where ?b1.0 = jane and ?b2.0 = jane_upper
      and ?e1.0 = "''jane@x.com''" and ?e2.0 = "''JANE@X.com''" and pg = sample_pg
      and ?id1.0 = "''id1''" and ?id2.0 = "''id2''" and uid = "''u1''" and db = empty_db
      and row = "returning (jane_row ''id1'' ''jane@x.com'' ''u1'')" and ?db1.0 = ?one,
      THEN conjunct1, THEN mp]
  note b = employee_email_unique_per_owner [where ?b1.0 = jane and ?b2.0 = jane_upper
      and ?e1.0 = "''jane@x.com''" and ?e2.0 = "''JANE@X.com''" and pg = sample_pg
      and ?id1.0 = "''id1''" and ?id2.0 = "''id2''" and uid = "''u1''" and db = empty_db,
      THEN conjunct2, THEN conjunct1, THEN mp]
  note c = employee_email_unique_per_owner [where b = jane_upper and e = "''JANE@X.com''" and db = ?two
      and id' = "''id2''" and uid = "''u1''" and pg = sample_pg,
      THEN conjunct2, THEN conjunct2, THEN conjunct1, THEN mp]
  note d = employee_email_unique_per_owner [where b = jane and db = ?two
      and id' = "''id3''" and uid = "''u2''" and pg = sample_pg,
      THEN conjunct2, THEN conjunct2, THEN conjunct2, THEN mp, OF u, THEN conjunct1]
  have a': "post_employee sample_pg ''id2'' jane_upper ?one ''u1'' =
       ((409, MessageJson ''An employee with this email already exists.''), ?one)"
    using a e1 e2 lo first s2 by blast
  have b': "post_employee sample_pg ''id2'' jane_upper
        (snd (post_employee sample_pg ''id1'' jane empty_db ''u1'')) ''u1'' =
       ((409, MessageJson ''An employee with this email already exists.''),
        snd (post_employee sample_pg ''id1'' jane empty_db ''u1''))"
    using b s1 s2 e1 e2 lo fresh by blast
  have c': "put_employee sample_pg ''id2'' jane_upper ?two ''u1'' =
       ((409, MessageJson ''An employee with this email already exists.''), ?two)"
    using c s2 e2 hit other by blast
  show ?thesis using s1 s2 lo first a' b' c' d u by simp
qed

text \<open>
  As stated, for any two creates, the claim fails. When the owner has a row with the email
  already, both creates answer 409 and none succeeds. Two creates whose salary is
  3000000000, which the column does not take, both answer 500 and none gets a 409.
\<close>

theorem creates_both_refused:
  "post_employee sample_pg ''id2'' jane_upper
       \<lparr>employees_table = [jane_row ''id1'' ''jane@x.com'' ''u1''], users_table = []\<rparr> ''u1'' =
     ((409, MessageJson ''An employee with this email already exists.''),
      \<lparr>employees_table = [jane_row ''id1'' ''jane@x.com'' ''u1''], users_table = []\<rparr>)
   \<and> post_employee sample_pg ''id3'' jane
       \<lparr>employees_table = [jane_row ''id1'' ''jane@x.com'' ''u1''], users_table = []\<rparr> ''u1'' =
     ((409, MessageJson ''An employee with this email already exists.''),
      \<lparr>employees_table = [jane_row ''id1'' ''jane@x.com'' ''u1''], users_table = []\<rparr>)
   \<and> fst (fst (post_employee sample_pg ''id1'' (jane\<lparr>body_salary := JNum (JInt 3000000000)\<rparr>)
       empty_db ''u1'')) = 500
   \<and> fst (fst (post_employee sample_pg ''id2'' (jane_upper\<lparr>body_salary := JNum (JInt 3000000000)\<rparr>)
       empty_db ''u1'')) = 500"
  by (simp add: post_employee_def invalid_employee_def jane_def jane_upper_def insert_employee_def
      bind_employee_def pg_integer_def pg_text_def has_nul_def sample_pg_def empty_db_def
      jane_row_def same_owner_email_def toLowerCase_def lower_char_def upper_letters_def
      lower_letters_def Let_def)

subsection \<open>C4: validation of Create and Update\<close>

text \<open>
  C4 as amended: Create and Update answer 400 exactly when one of firstName, lastName,
  email and department is missing or empty (falsy) or the salary is not of type number.
  A created record's salary is the integer that was sent, of 32 bits and possibly
  negative. When the driver binds no empty text, the routes keep every stored row's four
  text fields non-empty.
\<close>

theorem validation_checks_presence_and_number_type:
  "(fst (fst (post_employee pg id' b db uid)) = 400 \<longleftrightarrow>
      falsy (body_firstName b) \<or> falsy (body_lastName b) \<or> falsy (body_email b) \<or>
      falsy (body_department b) \<or> typeof (body_salary b) \<noteq> ''number'')
   \<and> (fst (fst (put_employee pg id' b db uid)) = 400 \<longleftrightarrow>
      falsy (body_firstName b) \<or> falsy (body_lastName b) \<or> falsy (body_email b) \<or>
      falsy (body_department b) \<or> typeof (body_salary b) \<noteq> ''number'')
   \<and> (post_employee pg id' b db uid = ((201, EmployeeJson row), db') \<or>
       put_employee pg id' b db uid = ((200, EmployeeJson row), db') \<longrightarrow>
        body_salary b = JNum (JInt (salary row)) \<and>
        - 2147483648 \<le> salary row \<and> salary row \<le> 2147483647)
   \<and> ((\<forall>w. driver_text pg w \<noteq> []) \<and> list_all nonempty_fields (employees_table db) \<longrightarrow>
        list_all nonempty_fields (employees_table (snd (post_employee pg id' b db uid))) \<and>
        list_all nonempty_fields (employees_table (snd (put_employee pg id' b db uid))))"
  using post_status_400 [of pg id' b db uid] put_status_400 [of pg id' b db uid]
    post_employee_salary [of pg id' b db uid row db'] put_employee_salary [of pg id' b db uid row db']
    post_employee_nonempty [of pg db id' b uid] put_employee_nonempty [of pg db id' b uid]
  unfolding invalid_employee_def by blast

theorem validation_checks_presence_and_number_type_witness:
  "fst (fst (post_employee sample_pg ''id1'' (jane\<lparr>body_salary := JStr ''80000''\<rparr>) empty_db ''u1'')) = 400
   \<and> fst (fst (put_employee sample_pg ''id1'' (jane\<lparr>body_email := JStr []\<rparr>) empty_db ''u1'')) = 400
   \<and> post_employee sample_pg ''id1'' jane empty_db ''u1'' =
       ((201, EmployeeJson (returning (jane_row ''id1'' ''jane@x.com'' ''u1''))),
        \<lparr>employees_table = [jane_row ''id1'' ''jane@x.com'' ''u1''], users_table = []\<rparr>)
   \<and> body_salary jane = JNum (JInt (salary (returning (jane_row ''id1'' ''jane@x.com'' ''u1''))))
   \<and> list_all nonempty_fields (employees_table empty_db)
   \<and> list_all nonempty_fields (employees_table (snd (post_employee sample_pg ''id1'' jane empty_db ''u1'')))"
proof -
  let ?pg = sample_pg
  let ?row = "returning (jane_row ''id1'' ''jane@x.com'' ''u1'')"
  let ?db' = "\<lparr>employees_table = [jane_row ''id1'' ''jane@x.com'' ''u1''], users_table = []\<rparr>"
  have i1: "typeof (body_salary (jane\<lparr>body_salary := JStr ''80000''\<rparr>)) \<noteq> ''number''" by simp
  have i2: "falsy (body_email (jane\<lparr>body_email := JStr []\<rparr>))" by simp
  have p: "post_employee ?pg ''id1'' jane empty_db ''u1'' = ((201, EmployeeJson ?row), ?db')"
    by (simp add: post_employee_def invalid_employee_def jane_def insert_employee_def bind_employee_def
        pg_integer_def pg_text_def has_nul_def sample_pg_def same_owner_email_def empty_db_def
        returning_def jane_row_def Let_def)
  have d: "\<forall>w. driver_text ?pg w \<noteq> []" by (simp add: sample_pg_def)
  have n: "list_all nonempty_fields (employees_table empty_db)" by (simp add: empty_db_def)
  note a = validation_checks_presence_and_number_type
    [of ?pg "''id1''" "jane\<lparr>body_salary := JStr ''80000''\<rparr>" empty_db "''u1''" ?row ?db', THEN conjunct1]
  note b = validation_checks_presence_and_number_type
    [of ?pg "''id1''" "jane\<lparr>body_email := JStr []\<rparr>" empty_db "''u1''" ?row ?db',
     THEN conjunct2, THEN conjunct1]
  note c = validation_checks_presence_and_number_type
    [of ?pg "''id1''" jane empty_db "''u1''" ?row ?db', THEN conjunct2, THEN conjunct2]
  show ?thesis using i1 i2 p d n a b c by blast
qed

text \<open>
  As stated, the claim fails: a create with the salary -1 answers 201 and the row is
  stored with that salary; a create whose firstName is the number 5 answers 201; a
  create whose salary is a number without an integer value answers 500, not 400.
\<close>

theorem negative_salary_is_stored:
  "post_employee sample_pg ''id1'' (jane\<lparr>body_salary := JNum (JInt (- 1))\<rparr>) empty_db ''u1'' =
     ((201, EmployeeJson \<lparr>firstName = ''Jane'', lastName = ''Doe'', email = ''jane@x.com'',
          department = ''CSE'', salary = - 1, emp_id = ''id1''\<rparr>),
      \<lparr>employees_table = [\<lparr>firstName = ''Jane'', lastName = ''Doe'', email = ''jane@x.com'',
          department = ''CSE'', salary = - 1, emp_id = ''id1'', userId = Some ''u1''\<rparr>],
       users_table = []\<rparr>)
   \<and> fst (fst (post_employee sample_pg ''id1'' (jane\<lparr>body_firstName := JNum (JInt 5)\<rparr>) empty_db ''u1'')) = 201
   \<and> fst (fst (post_employee sample_pg ''id1'' (jane\<lparr>body_salary := JNum JNonInt\<rparr>) empty_db ''u1'')) = 500"
  by (simp add: post_employee_def invalid_employee_def jane_def insert_employee_def bind_employee_def
      pg_integer_def pg_text_def has_nul_def sample_pg_def same_owner_email_def empty_db_def
      returning_def Let_def)

subsection \<open>C5: salary ascending and descending\<close>

text \<open>
  C5 as amended: when the salaries of the filtered list are pairwise distinct, sorting it
  by salary descending gives the reverse of sorting it by salary ascending, also when the
  descending sort is the click on the salary header of the list sorted ascending. For
  every list the two results carry reversed sequences of salaries, each is a sorted
  permutation of the list, and the sort is stable: records of one salary keep their
  order in both directions.
\<close>

theorem salary_sort_reversed_when_distinct:
  "(distinct (map salary (filteredEmployees st)) \<longrightarrow>
      sorted_by_salary Desc st = rev (sorted_by_salary Asc st))
   \<and> (distinct (map salary (filteredEmployees st)) \<longrightarrow>
        filteredEmployees (handleSort SortSalary
           (sortEmployees (st\<lparr>sortField := SortSalary, sortDirection := Asc\<rparr>))) =
        rev (sorted_by_salary Asc st))
   \<and> map salary (sorted_by_salary Desc st) = rev (map salary (sorted_by_salary Asc st))
   \<and> sorted (map salary (sorted_by_salary Asc st))
   \<and> sorted (rev (map salary (sorted_by_salary Desc st)))
   \<and> mset (sorted_by_salary Asc st) = mset (filteredEmployees st)
   \<and> mset (sorted_by_salary Desc st) = mset (filteredEmployees st)
   \<and> filter (\<lambda>e. salary e = k) (sorted_by_salary Asc st) =
       filter (\<lambda>e. salary e = k) (filteredEmployees st)
   \<and> filter (\<lambda>e. salary e = k) (sorted_by_salary Desc st) =
       filter (\<lambda>e. salary e = k) (filteredEmployees st)"
proof -
  let ?xs = "filteredEmployees st"
  let ?asc = "sorted_by_salary Asc st"
  let ?desc = "sorted_by_salary Desc st"
  have a: "?asc = sort_key salary ?xs"
    by (simp add: sorted_by_salary_def filtered_sortEmployees sort_with_asc)
  have d: "?desc = sort_key (\<lambda>e. - salary e) ?xs"
    by (simp add: sorted_by_salary_def filtered_sortEmployees sort_with_desc)
  have 1: "distinct (map salary ?xs) \<longrightarrow> ?desc = rev ?asc"
    unfolding a d using sort_desc_rev_distinct by blast
  have 2: "map salary ?desc = rev (map salary ?asc)" unfolding a d by (rule salaries_desc_rev)
  have 8: "filteredEmployees (handleSort SortSalary
             (sortEmployees (st\<lparr>sortField := SortSalary, sortDirection := Asc\<rparr>))) = rev ?asc"
    if dist: "distinct (map salary ?xs)"
  proof -
    have "filteredEmployees (handleSort SortSalary
             (sortEmployees (st\<lparr>sortField := SortSalary, sortDirection := Asc\<rparr>))) =
          sort_key (\<lambda>e. - salary e) (sort_key salary ?xs)"
      by (simp add: handleSort_def renderTable_def sortEmployees_def sort_with_asc sort_with_desc Let_def)
    also have "\<dots> = rev (sort_key salary (sort_key salary ?xs))"
      using dist by (intro sort_desc_rev_distinct) (simp add: distinct_map)
    also have "\<dots> = rev (sort_key salary ?xs)"
      by (simp add: sort_key_id_if_sorted)
    finally show ?thesis unfolding a .
  qed
  have 3: "sorted (map salary ?asc)" unfolding a by simp
  have 4: "sorted (rev (map salary ?desc))" unfolding 2 using 3 by simp
  have 5: "mset ?asc = mset ?xs" "mset ?desc = mset ?xs" unfolding a d by simp_all
  have 6: "filter (\<lambda>e. salary e = k) ?asc = filter (\<lambda>e. salary e = k) ?xs"
    unfolding a by (rule stable_asc)
  have 7: "filter (\<lambda>e. salary e = k) ?desc = filter (\<lambda>e. salary e = k) ?xs"
    unfolding d by (rule stable_desc)
  show ?thesis using 1 2 3 4 5 6 7 8 by blast
qed

theorem salary_sort_reversed_when_distinct_witness:
  "distinct (map salary (filteredEmployees (initial_client\<lparr>filteredEmployees := [cy, ann]\<rparr>)))
   \<and> sorted_by_salary Desc (initial_client\<lparr>filteredEmployees := [cy, ann]\<rparr>) =
     rev (sorted_by_salary Asc (initial_client\<lparr>filteredEmployees := [cy, ann]\<rparr>))"
proof -
  let ?st = "initial_client\<lparr>filteredEmployees := [cy, ann]\<rparr>"
  have h: "distinct (map salary (filteredEmployees ?st))" by (simp add: cy_def ann_def)
  note t = salary_sort_reversed_when_distinct [of ?st 0, THEN conjunct1, THEN mp, OF h]
  show ?thesis using h t by blast
qed

text \<open>
  As stated, for every dataset, the claim fails: two records of one salary come out in the
  same order in both directions, by the stability of the sort.
\<close>

theorem salary_sort_ties_not_reversed:
  "sorted_by_salary Asc (initial_client\<lparr>filteredEmployees := [ann, bob]\<rparr>) = [ann, bob]
   \<and> sorted_by_salary Desc (initial_client\<lparr>filteredEmployees := [ann, bob]\<rparr>) = [ann, bob]
   \<and> sorted_by_salary Desc (initial_client\<lparr>filteredEmployees := [ann, bob]\<rparr>) \<noteq>
     rev (sorted_by_salary Asc (initial_client\<lparr>filteredEmployees := [ann, bob]\<rparr>))
   \<and> filteredEmployees (handleSort SortSalary (sortEmployees
        (initial_client\<lparr>filteredEmployees := [ann, bob], sortField := SortSalary\<rparr>))) = [ann, bob]"
  by (simp add: sorted_by_salary_def sortEmployees_def initial_client_def ann_def bob_def
      compareEmployees_def sortValue_def handleSort_def renderTable_def)

subsection \<open>C6: the filter predicate\<close>

text \<open>
  C6: after \<open>applyFilters\<close> a record is in the filtered list if and only if it is in the
  cache and satisfies the predicate of the specification, with the multiplicity it has
  in the cache; with an empty search text and the department filter "Engineering" the
  filtered list holds exactly the records whose department is "Engineering".
\<close>

theorem filtered_view_iff:
  "mset (filteredEmployees (applyFilters st)) =
     mset (filter (in_filtered_view (searchInput st) (filterDepartment st)) (employees st))
   \<and> (e \<in> set (filteredEmployees (applyFilters st)) \<longleftrightarrow>
        e \<in> set (employees st) \<and> in_filtered_view (searchInput st) (filterDepartment st) e)
   \<and> (searchInput st = [] \<and> filterDepartment st = ''Engineering'' \<longrightarrow>
        mset (filteredEmployees (applyFilters st)) =
        mset (filter (\<lambda>e. department e = ''Engineering'') (employees st)))"
proof -
  have m: "mset (filteredEmployees (applyFilters st)) =
     mset (filter (in_filtered_view (searchInput st) (filterDepartment st)) (employees st))"
    by (simp add: filtered_applyFilters mset_sort_with matches_code_spec)
  have s: "e \<in> set (filteredEmployees (applyFilters st)) \<longleftrightarrow>
        e \<in> set (employees st) \<and> in_filtered_view (searchInput st) (filterDepartment st) e"
    by (simp add: filtered_applyFilters set_sort_with matches_code_spec)
  have p: "searchInput st = [] \<and> filterDepartment st = ''Engineering'' \<longrightarrow>
        mset (filteredEmployees (applyFilters st)) =
        mset (filter (\<lambda>e. department e = ''Engineering'') (employees st))"
    using m by (auto simp: in_filtered_view_def)
  show ?thesis using m s p by blast
qed

theorem filtered_view_iff_witness:
  "searchInput (initial_client\<lparr>employees := [ann, bob, cy], filterDepartment := ''Engineering''\<rparr>) = []
   \<and> mset (filteredEmployees (applyFilters
      (initial_client\<lparr>employees := [ann, bob, cy], filterDepartment := ''Engineering''\<rparr>))) =
     mset [ann, cy]"
proof -
  let ?st = "initial_client\<lparr>employees := [ann, bob, cy], filterDepartment := ''Engineering''\<rparr>"
  have h: "searchInput ?st = [] \<and> filterDepartment ?st = ''Engineering''"
    by (simp add: initial_client_def)
  have f: "filter (\<lambda>e. department e = ''Engineering'') (employees ?st) = [ann, cy]"
    by (simp add: ann_def bob_def cy_def)
  note t = filtered_view_iff [of ?st ann, THEN conjunct2, THEN conjunct2, THEN mp, OF h]
  show ?thesis using h t unfolding f by blast
qed

subsection \<open>C7: CSV export\<close>

text \<open>
  C7: the exported text is the header line followed by one line per record of the
  filtered list, joined by line feeds. A record's line holds its full name, email,
  department and salary in that order, each wrapped in double quotes and separated by
  commas. The header line is \<open>Name,Email,Department,Salary (\<dots>)\<close> with the rupee sign
  between the parentheses, its cells written without quotes. When no text field holds a
  line feed, splitting the text at line feeds gives these lines back, one more than there
  are records. For an empty filtered list the text is the header line alone.
\<close>

theorem csv_export_lines:
  "fst (exportToCSV st) =
     join [CHR 0x0A]
       ((''Name,Email,Department,Salary ('' @ rupee_sign @ '')'') #
        map (\<lambda>e. [CHR 0x22] @ firstName e @ '' '' @ lastName e @ [CHR 0x22] @ '','' @
                  [CHR 0x22] @ email e @ [CHR 0x22] @ '','' @
                  [CHR 0x22] @ department e @ [CHR 0x22] @ '','' @
                  [CHR 0x22] @ int_toString (salary e) @ [CHR 0x22]) (filteredEmployees st))
   \<and> (list_all no_line_break (filteredEmployees st) \<longrightarrow>
        length (split (CHR 0x0A) (fst (exportToCSV st))) = 1 + length (filteredEmployees st) \<and>
        split (CHR 0x0A) (fst (exportToCSV st)) =
          (''Name,Email,Department,Salary ('' @ rupee_sign @ '')'') #
          map (\<lambda>e. [CHR 0x22] @ firstName e @ '' '' @ lastName e @ [CHR 0x22] @ '','' @
                    [CHR 0x22] @ email e @ [CHR 0x22] @ '','' @
                    [CHR 0x22] @ department e @ [CHR 0x22] @ '','' @
                    [CHR 0x22] @ int_toString (salary e) @ [CHR 0x22]) (filteredEmployees st))
   \<and> (filteredEmployees st = [] \<longrightarrow>
        fst (exportToCSV st) = ''Name,Email,Department,Salary ('' @ rupee_sign @ '')'')"
proof -
  let ?H = "''Name,Email,Department,Salary ('' @ rupee_sign @ '')''"
  let ?R = "map (\<lambda>e. [CHR 0x22] @ firstName e @ '' '' @ lastName e @ [CHR 0x22] @ '','' @
                  [CHR 0x22] @ email e @ [CHR 0x22] @ '','' @
                  [CHR 0x22] @ department e @ [CHR 0x22] @ '','' @
                  [CHR 0x22] @ int_toString (salary e) @ [CHR 0x22]) (filteredEmployees st)"
  have lines: "csv_lines (filteredEmployees st) = ?H # ?R"
    unfolding csv_lines_def header_line by (simp add: row_line comp_def)
  have 1: "fst (exportToCSV st) = join [CHR 0x0A] (?H # ?R)"
    unfolding lines [symmetric] by (simp add: exportToCSV_def csvContent_def)
  have 2: "split (CHR 0x0A) (fst (exportToCSV st)) = ?H # ?R"
    if a: "list_all no_line_break (filteredEmployees st)"
  proof -
    have "\<forall>x \<in> set (csv_lines (filteredEmployees st)). CHR 0x0A \<notin> set x"
      using a header_no_lf row_no_lf by (auto simp: list_all_iff csv_lines_def)
    then have "\<forall>x \<in> set (?H # ?R). CHR 0x0A \<notin> set x" unfolding lines .
    then have "split (CHR 0x0A) (join [CHR 0x0A] (?H # ?R)) = ?H # ?R"
      by (intro split_join) simp_all
    then show ?thesis unfolding 1 .
  qed
  have 3: "length (split (CHR 0x0A) (fst (exportToCSV st))) = 1 + length (filteredEmployees st)"
    if a: "list_all no_line_break (filteredEmployees st)"
    unfolding 2 [OF a] by simp
  have 4: "fst (exportToCSV st) = ?H" if "filteredEmployees st = []"
    unfolding 1 using that by simp
  show ?thesis using 1 2 3 4 by blast
qed

theorem csv_export_lines_witness:
  "list_all no_line_break (filteredEmployees (initial_client\<lparr>filteredEmployees := [ann, cy]\<rparr>))
   \<and> length (split (CHR 0x0A) (fst (exportToCSV (initial_client\<lparr>filteredEmployees := [ann, cy]\<rparr>)))) = 3
   \<and> filteredEmployees initial_client = []
   \<and> fst (exportToCSV initial_client) = ''Name,Email,Department,Salary ('' @ rupee_sign @ '')''"
proof -
  let ?st = "initial_client\<lparr>filteredEmployees := [ann, cy]\<rparr>"
  have h: "list_all no_line_break (filteredEmployees ?st)"
    by (simp add: no_line_break_def ann_def cy_def)
  have e: "filteredEmployees initial_client = []" by (simp add: initial_client_def)
  note a = csv_export_lines [of ?st, THEN conjunct2, THEN conjunct1, THEN mp, OF h, THEN conjunct1]
  note b = csv_export_lines [of initial_client, THEN conjunct2, THEN conjunct2, THEN mp, OF e]
  have "length (split (CHR 0x0A) (fst (exportToCSV ?st))) = 3" using a by simp
  then show ?thesis using h e b by blast
qed

subsection \<open>C8: the cache after a failed mutation\<close>

text \<open>
  C8: when an add, update or delete does not end in a confirmed success (the request is
  rejected, or the response is not ok), the cache \<open>employees\<close> is unchanged, so it is
  modified only after a success; a failed add or update shows one more toast.
\<close>

theorem cache_unchanged_on_failure:
  assumes "\<not> succeeded fetched"
  shows "employees (addEmployee employeeData fetched st) = employees st \<and>
         employees (updateEmployee id' employeeData fetched st) = employees st \<and>
         employees (deleteEmployee id' confirmed fetched st) = employees st \<and>
         length (toasts (addEmployee employeeData fetched st)) = length (toasts st) + 1 \<and>
         length (toasts (updateEmployee id' employeeData fetched st)) = length (toasts st) + 1"
proof (cases fetched)
  case (Rejected m)
  then show ?thesis
    by (simp add: addEmployee_def updateEmployee_def deleteEmployee_def showToast_def
        split: option.splits)
next
  case (Resolved response)
  then have n: "\<not> ok response" using assms by (simp add: succeeded_def)
  show ?thesis
  proof (cases "text_body response")
    case (Rejected m)
    then show ?thesis using Resolved n
      by (simp add: addEmployee_def updateEmployee_def deleteEmployee_def showToast_def
          split: option.splits)
  next
    case inner: (Resolved errText)
    then show ?thesis using Resolved n
      by (simp add: addEmployee_def updateEmployee_def deleteEmployee_def showToast_def
          split: option.splits)
  qed
qed

theorem cache_unchanged_on_failure_witness:
  "\<not> succeeded (Resolved conflict_response)
   \<and> employees (addEmployee ann (Resolved conflict_response) second_page) = six_workers
   \<and> employees (updateEmployee ''1'' ann (Resolved conflict_response) second_page) = six_workers
   \<and> employees (deleteEmployee ''1'' True (Resolved conflict_response) second_page) = six_workers"
proof -
  have a: "\<not> succeeded (Resolved conflict_response)" by (simp add: succeeded_def conflict_response_def)
  have e: "employees second_page = six_workers" by (simp add: second_page_def)
  note c = cache_unchanged_on_failure [OF a, of ann second_page "''1''" True]
  show ?thesis using a c unfolding e by blast
qed

subsection \<open>C9: user emails are unique as they are written\<close>

text \<open>
  C9: two registrations whose values the store takes (non-empty names, passwords of six
  characters or more, no text with U+0000, index rows that fit), with new distinct ids
  and emails that differ but are equal in lower case, both answer 201, and the store then
  holds both users. A registration with an email that a user has, letter for letter,
  answers 409. A create of an employee whose email equals, in lower case, that of a row
  of the same owner answers 409.
\<close>

theorem user_email_unique_case_sensitive:
  "(registrable hash pg id1 n1 e1 p1 \<and> registrable hash pg id2 n2 e2 p2 \<and>
    e1 \<noteq> e2 \<and> toLowerCase e1 = toLowerCase e2 \<and> id1 \<noteq> id2 \<and>
    (\<forall>u \<in> set (users_table db). user_id u \<notin> {id1, id2} \<and> user_email u \<notin> {e1, e2}) \<longrightarrow>
      fst (fst (register hash pg id1
         \<lparr>body_name = JStr n1, body_user_email = JStr e1, body_password = JStr p1\<rparr> db)) = 201 \<and>
      register hash pg id2 \<lparr>body_name = JStr n2, body_user_email = JStr e2, body_password = JStr p2\<rparr>
        (snd (register hash pg id1
           \<lparr>body_name = JStr n1, body_user_email = JStr e1, body_password = JStr p1\<rparr> db)) =
        ((201, MessageUserJson ''Registration successful''
                 \<lparr>user_id = id2, name = n2, user_email = e2\<rparr>),
         db\<lparr>users_table := users_table db @
               [\<lparr>user_id = id1, name = n1, user_email = e1, password = hash p1\<rparr>,
                \<lparr>user_id = id2, name = n2, user_email = e2, password = hash p2\<rparr>]\<rparr>))
   \<and> (n1 \<noteq> [] \<and> e1 \<noteq> [] \<and> 6 \<le> length p1 \<and> \<not> has_nul e1 \<and>
       (\<exists>u \<in> set (users_table db). user_email u = e1) \<longrightarrow>
      register hash pg id1 \<lparr>body_name = JStr n1, body_user_email = JStr e1, body_password = JStr p1\<rparr> db =
        ((409, ErrorJson ''User with this email already exists''), db))
   \<and> (storable pg id2 uid b \<and> body_email b = JStr e2 \<and>
       (\<exists>r \<in> set (employees_table db). userId r = Some uid \<and> LOWER pg (email r) = LOWER pg e2) \<longrightarrow>
      post_employee pg id2 b db uid =
        ((409, MessageJson ''An employee with this email already exists.''), db))"
proof -
  let ?b1 = "\<lparr>body_name = JStr n1, body_user_email = JStr e1, body_password = JStr p1\<rparr>"
  let ?b2 = "\<lparr>body_name = JStr n2, body_user_email = JStr e2, body_password = JStr p2\<rparr>"
  let ?u1 = "\<lparr>user_id = id1, name = n1, user_email = e1, password = hash p1\<rparr>"
  let ?u2 = "\<lparr>user_id = id2, name = n2, user_email = e2, password = hash p2\<rparr>"
  have 1: "fst (fst (register hash pg id1 ?b1 db)) = 201 \<and>
      register hash pg id2 ?b2 (snd (register hash pg id1 ?b1 db)) =
        ((201, MessageUserJson ''Registration successful'' \<lparr>user_id = id2, name = n2, user_email = e2\<rparr>),
         db\<lparr>users_table := users_table db @ [?u1, ?u2]\<rparr>)"
    if h: "registrable hash pg id1 n1 e1 p1" "registrable hash pg id2 n2 e2 p2" "e1 \<noteq> e2"
      "id1 \<noteq> id2"
      "\<forall>u \<in> set (users_table db). user_id u \<notin> {id1, id2} \<and> user_email u \<notin> {e1, e2}"
  proof -
    have f1: "\<forall>u \<in> set (users_table db). user_id u \<noteq> id1 \<and> user_email u \<noteq> e1" using h(5) by simp
    have r1: "register hash pg id1 ?b1 db =
        ((201, MessageUserJson ''Registration successful'' \<lparr>user_id = id1, name = n1, user_email = e1\<rparr>),
         db\<lparr>users_table := users_table db @ [?u1]\<rparr>)"
      by (rule register_created [OF h(1) f1])
    let ?db1 = "db\<lparr>users_table := users_table db @ [?u1]\<rparr>"
    have f2: "\<forall>u \<in> set (users_table ?db1). user_id u \<noteq> id2 \<and> user_email u \<noteq> e2"
      using h(3,4,5) by auto
    have r2: "register hash pg id2 ?b2 ?db1 =
        ((201, MessageUserJson ''Registration successful'' \<lparr>user_id = id2, name = n2, user_email = e2\<rparr>),
         ?db1\<lparr>users_table := users_table ?db1 @ [?u2]\<rparr>)"
      by (rule register_created [OF h(2) f2])
    show ?thesis unfolding r1 using r2 by simp
  qed
  show ?thesis
    using 1 register_conflict [of n1 e1 p1 db hash pg id1]
      post_employee_conflict [of pg id2 uid b e2 db]
    by blast
qed

theorem user_email_unique_case_sensitive_witness:
  "registrable rev sample_pg ''id1'' ''Jane'' ''jane@x.com'' ''secret1''
   \<and> registrable rev sample_pg ''id2'' ''Jane'' ''JANE@X.com'' ''secret2''
   \<and> ''jane@x.com'' \<noteq> ''JANE@X.com'' \<and> toLowerCase ''jane@x.com'' = toLowerCase ''JANE@X.com''
   \<and> fst (fst (register rev sample_pg ''id1''
        \<lparr>body_name = JStr ''Jane'', body_user_email = JStr ''jane@x.com'',
         body_password = JStr ''secret1''\<rparr> empty_db)) = 201
   \<and> register rev sample_pg ''id2''
        \<lparr>body_name = JStr ''Jane'', body_user_email = JStr ''JANE@X.com'',
         body_password = JStr ''secret2''\<rparr>
        (snd (register rev sample_pg ''id1''
          \<lparr>body_name = JStr ''Jane'', body_user_email = JStr ''jane@x.com'',
           body_password = JStr ''secret1''\<rparr> empty_db)) =
       ((201, MessageUserJson ''Registration successful''
                \<lparr>user_id = ''id2'', name = ''Jane'', user_email = ''JANE@X.com''\<rparr>),
        empty_db\<lparr>users_table := users_table empty_db @
           [\<lparr>user_id = ''id1'', name = ''Jane'', user_email = ''jane@x.com'', password = rev ''secret1''\<rparr>,
            \<lparr>user_id = ''id2'', name = ''Jane'', user_email = ''JANE@X.com'', password = rev ''secret2''\<rparr>]\<rparr>)"
proof -
  have h: "registrable rev sample_pg ''id1'' ''Jane'' ''jane@x.com'' ''secret1'' \<and>
    registrable rev sample_pg ''id2'' ''Jane'' ''JANE@X.com'' ''secret2'' \<and>
    ''jane@x.com'' \<noteq> ''JANE@X.com'' \<and> toLowerCase ''jane@x.com'' = toLowerCase ''JANE@X.com'' \<and>
    ''id1'' \<noteq> ''id2'' \<and>
    (\<forall>u \<in> set (users_table empty_db).
       user_id u \<notin> {''id1'', ''id2''} \<and> user_email u \<notin> {''jane@x.com'', ''JANE@X.com''})"
    by (simp add: registrable_def has_nul_def sample_pg_def empty_db_def toLowerCase_def lower_char_def
        upper_letters_def lower_letters_def)
  note t = user_email_unique_case_sensitive [of rev sample_pg "''id1''" "''Jane''" "''jane@x.com''"
      "''secret1''" "''id2''" "''Jane''" "''JANE@X.com''" "''secret2''" empty_db,
      THEN conjunct1, THEN mp, OF h]
  show ?thesis using h t by blast
qed

subsection \<open>C10: a page change out of range\<close>

text \<open>
  C10: a page change whose target lies outside 1 to ceil(filteredCount / pageSize) is a
  no-op. The state, and with it the current page and everything the page shows, is left
  as it was; the target is not clamped to the nearest valid page.
\<close>

theorem changePage_out_of_range:
  assumes "ceil_div (length (filteredEmployees st)) (rowsPerPage st) = Some t"
    and "page < 1 \<or> int t < page"
  shows "changePage page st = st"
  using assms by (auto simp: changePage_def)

theorem changePage_out_of_range_witness:
  "ceil_div (length (filteredEmployees twenty_five)) (rowsPerPage twenty_five) = Some 3
   \<and> changePage 4 twenty_five = twenty_five
   \<and> currentPage (changePage 4 twenty_five) = 1
   \<and> changePage 0 twenty_five = twenty_five"
proof -
  have c: "ceil_div (length (filteredEmployees twenty_five)) (rowsPerPage twenty_five) = Some 3"
    by (simp add: twenty_five_def initial_client_def ceil_div_def)
  have 4: "changePage 4 twenty_five = twenty_five"
    using changePage_out_of_range [OF c, of 4] by simp
  have 0: "changePage 0 twenty_five = twenty_five"
    using changePage_out_of_range [OF c, of 0] by simp
  have "currentPage twenty_five = 1" by (simp add: twenty_five_def initial_client_def)
  then show ?thesis using c 4 0 by simp
qed

end
